theory Spec2Isabelle
  imports Complex_Main "HOL-Library.Word"
begin

section \<open>Values of the program\<close>

text \<open>
  The particle morpher of \<^verbatim>\<open>src/valentines/src/main.js\<close>. JavaScript numbers are
  modelled as mathematical reals: \<^verbatim>\<open>+\<close>, \<^verbatim>\<open>-\<close>, \<^verbatim>\<open>*\<close> and \<^verbatim>\<open><\<close> are the real
  ones, so the rounding of IEEE doubles, infinities and \<^verbatim>\<open>NaN\<close> are not part of the
  model. The particle positions live in a \<^verbatim>\<open>Float32Array\<close>, and every store into it
  rounds to single precision; that rounding is modelled (\<open>fround\<close> below). Array
  indices and lengths are naturals.
  An exception is a value: a handler returns \<open>Inl (e, s)\<close> when it throws \<open>e\<close> and
  leaves the globals in state \<open>s\<close>, and \<open>Inr s\<close> when it returns.
\<close>

datatype error = TypeError

text \<open>
  \<^verbatim>\<open>xs[i]\<close> on a JavaScript array: \<^verbatim>\<open>undefined\<close> (here \<open>None\<close>) out of range. Reading a
  property of \<^verbatim>\<open>undefined\<close> throws a \<^verbatim>\<open>TypeError\<close>.
\<close>

definition js_index :: "'a list \<Rightarrow> nat \<Rightarrow> 'a option" where
  "js_index xs i = (if i < length xs then Some (xs ! i) else None)"

text \<open>
  \<^verbatim>\<open>i % n\<close> on non-negative integers: \<^verbatim>\<open>NaN\<close> (here \<open>None\<close>) when \<open>n\<close> is zero;
  an array read at index \<^verbatim>\<open>NaN\<close> is \<^verbatim>\<open>undefined\<close>.
\<close>

definition js_rem :: "nat \<Rightarrow> nat \<Rightarrow> nat option" where
  "js_rem i n = (if n = 0 then None else Some (i mod n))"

record vector3 =
  vx :: real
  vy :: real
  vz :: real

text \<open>
  The methods of \<^verbatim>\<open>THREE.Vector3\<close> and \<^verbatim>\<open>THREE.MathUtils\<close> that the program calls.
  The library is not part of the repository; the definitions follow the library's
  documented behaviour: \<^verbatim>\<open>lerp(v, alpha)\<close> adds \<^verbatim>\<open>(v.c - this.c) * alpha\<close> to each
  component \<^verbatim>\<open>c\<close>, \<^verbatim>\<open>setFromSphericalCoords(radius, phi, theta)\<close> sets
  \<^verbatim>\<open>x = radius sin(phi) sin(theta)\<close>, \<^verbatim>\<open>y = radius cos(phi)\<close>,
  \<^verbatim>\<open>z = radius sin(phi) cos(theta)\<close>.
\<close>

definition Vector3 :: "real \<Rightarrow> real \<Rightarrow> real \<Rightarrow> vector3" where
  "Vector3 a b c = \<lparr>vx = a, vy = b, vz = c\<rparr>"

definition lerp :: "vector3 \<Rightarrow> vector3 \<Rightarrow> real \<Rightarrow> vector3" where
  "lerp this v alpha =
     \<lparr>vx = vx this + (vx v - vx this) * alpha,
      vy = vy this + (vy v - vy this) * alpha,
      vz = vz this + (vz v - vz this) * alpha\<rparr>"

definition setFromSphericalCoords :: "real \<Rightarrow> real \<Rightarrow> real \<Rightarrow> vector3" where
  "setFromSphericalCoords radius phi theta =
     (let sinPhiRadius = sin phi * radius
      in \<lparr>vx = sinPhiRadius * sin theta, vy = cos phi * radius, vz = sinPhiRadius * cos theta\<rparr>)"

definition degToRad :: "real \<Rightarrow> real" where
  "degToRad degrees = degrees * (pi / 180)"

text \<open>The Euclidean length of a vector, used to state distances and radii.\<close>

definition vlength :: "vector3 \<Rightarrow> real" where
  "vlength v = sqrt ((vx v)\<^sup>2 + (vy v)\<^sup>2 + (vz v)\<^sup>2)"


text \<open>
  A store into a \<^verbatim>\<open>Float32Array\<close> rounds the number to the nearest single-precision
  value, ties to the even significand, as \<^verbatim>\<open>Math.fround\<close> does. A single-precision value
  has a 24-bit significand: in the binade \<open>2 ^ e \<le> \<bar>x\<bar> < 2 ^ (e + 1)\<close> the values are
  the multiples of \<open>2 ^ (e - 23)\<close>, and below \<open>2 ^ -126\<close> (subnormal numbers) the
  multiples of \<open>2 ^ -149\<close>. Overflow to infinity, for \<open>\<bar>x\<bar>\<close> near \<open>2 ^ 128\<close> and above,
  is outside the model, as for doubles.
\<close>

definition round_ties_even :: "real \<Rightarrow> int" where
  "round_ties_even y =
     (let f = \<lfloor>y\<rfloor> in
      if y - of_int f < 1 / 2 then f
      else if 1 / 2 < y - of_int f then f + 1
      else if even f then f else f + 1)"

definition float32_exponent :: "real \<Rightarrow> int" where
  "float32_exponent x = max \<lfloor>log 2 \<bar>x\<bar>\<rfloor> (- 126)"

definition float32_ulp :: "real \<Rightarrow> real" where
  "float32_ulp x = 2 powr (of_int (float32_exponent x) - 23)"

definition fround :: "real \<Rightarrow> real" where
  "fround x =
     (if x = 0 then 0
      else of_int (round_ties_even (x / float32_ulp x)) * float32_ulp x)"

definition vscale :: "real \<Rightarrow> vector3 \<Rightarrow> vector3" where
  "vscale c v = \<lparr>vx = c * vx v, vy = c * vy v, vz = c * vz v\<rparr>"

section \<open>Configuration and global state\<close>

definition PARTICLE_COUNT :: "bool \<Rightarrow> nat" where
  "PARTICLE_COUNT isMobile = (if isMobile then 8000 else 15000)"

definition SMOOTHING :: real where
  "SMOOTHING = 8 / 100"

definition ELASTICITY :: real where
  "ELASTICITY = 5 / 100"

datatype gesture = none | peace | rock | like | fist | detected

text \<open>
  A hand landmark as the tracker delivers it (normalised image coordinates), and one
  result of the tracker: \<^verbatim>\<open>multiHandLandmarks\<close> is absent, or an array with one landmark
  array per detected hand.
\<close>

record landmark =
  lx :: real
  ly :: real

record results =
  multiHandLandmarks :: "landmark list list option"

text \<open>
  The environment that is fixed when the script starts: the device tier
  (\<^verbatim>\<open>isMobile\<close>) and the text rasteriser, given by the RGBA bytes that
  \<^verbatim>\<open>getImageData(0, 0, 512, 128).data\<close> returns after \<^verbatim>\<open>fillText\<close> of a string.
\<close>

record env =
  isMobile :: bool
  raster :: "string \<Rightarrow> 8 word list"

text \<open>
  The mutable globals. The five point sets are \<^verbatim>\<open>undefined\<close> (\<open>None\<close>) until
  \<^verbatim>\<open>initShapes\<close> assigns them. \<open>random_source\<close> holds the values that the future calls
  of \<^verbatim>\<open>Math.random()\<close> return, in order.
\<close>

record state =
  currentGesture :: gesture
  time :: real
  handDisplacement :: vector3
  camera_aspect :: real
  willYouPoints :: "vector3 list option"
  beMyPoints :: "vector3 list option"
  valentinesPoints :: "vector3 list option"
  saturnPoints :: "vector3 list option"
  randomPoints :: "vector3 list option"
  posArray :: "real list"
  particleSystem_position :: vector3
  random_source :: "nat \<Rightarrow> real"

section \<open>The landmark handler\<close>

text \<open>
  \<^verbatim>\<open>lm[tip].y < lm[joint].y\<close>: the tip is read first; a missing landmark makes the
  property read throw.
\<close>

definition finger_up :: "landmark list \<Rightarrow> nat \<Rightarrow> nat \<Rightarrow> bool option" where
  "finger_up lm tip joint =
     (case js_index lm tip of
        None \<Rightarrow> None
      | Some t \<Rightarrow> (case js_index lm joint of None \<Rightarrow> None | Some j \<Rightarrow> Some (ly t < ly j)))"

definition classify :: "bool \<Rightarrow> bool \<Rightarrow> bool \<Rightarrow> bool \<Rightarrow> gesture" where
  "classify indexUp middleUp pinkyUp thumbUp =
     (if indexUp \<and> middleUp \<and> \<not> pinkyUp then peace
      else if indexUp \<and> pinkyUp \<and> \<not> middleUp then rock
      else if thumbUp \<and> \<not> indexUp \<and> \<not> middleUp then like
      else if \<not> indexUp \<and> \<not> middleUp \<and> \<not> pinkyUp then fist
      else detected)"

definition onResults :: "results \<Rightarrow> state \<Rightarrow> (error \<times> state) + state" where
  "onResults r s =
     (case multiHandLandmarks r of
        Some (lm # rest) \<Rightarrow>
          (case js_index lm 0 of
             None \<Rightarrow> Inl (TypeError, s)
           | Some wrist \<Rightarrow>
               let s1 = s\<lparr>handDisplacement := (handDisplacement s)\<lparr>vx := (lx wrist - 0.5) * (- 40)\<rparr>\<rparr>;
                   s2 = s1\<lparr>handDisplacement := (handDisplacement s1)\<lparr>vy := (0.5 - ly wrist) * 30\<rparr>\<rparr>
               in (case finger_up lm 8 6 of
                     None \<Rightarrow> Inl (TypeError, s2)
                   | Some indexUp \<Rightarrow>
                  (case finger_up lm 12 10 of
                     None \<Rightarrow> Inl (TypeError, s2)
                   | Some middleUp \<Rightarrow>
                  (case finger_up lm 20 18 of
                     None \<Rightarrow> Inl (TypeError, s2)
                   | Some pinkyUp \<Rightarrow>
                  (case finger_up lm 4 2 of
                     None \<Rightarrow> Inl (TypeError, s2)
                   | Some thumbUp \<Rightarrow>
                       Inr (s2\<lparr>currentGesture := classify indexUp middleUp pinkyUp thumbUp\<rparr>))))))
      | _ \<Rightarrow>
          Inr (s\<lparr>currentGesture := none,
                 handDisplacement := lerp (handDisplacement s) (Vector3 0 0 0) 0.05\<rparr>))"

text \<open>The test of line 151: the result lists at least one hand.\<close>

definition hand_detected :: "results \<Rightarrow> bool" where
  "hand_detected r = (case multiHandLandmarks r of Some (lm # rest) \<Rightarrow> True | _ \<Rightarrow> False)"

section \<open>Shape generation\<close>

text \<open>
  \<^verbatim>\<open>Math.random()\<close> takes the next value of the source. The browser promises a value
  in \<open>[0, 1)\<close>; theorems that need it assume it of the source.
\<close>

definition Math_random :: "(nat \<Rightarrow> real) \<Rightarrow> real \<times> (nat \<Rightarrow> real)" where
  "Math_random src = (src 0, \<lambda>n. src (Suc n))"

definition unit_interval :: "(nat \<Rightarrow> real) \<Rightarrow> bool" where
  "unit_interval src = (\<forall>n. 0 \<le> src n \<and> src n < 1)"

text \<open>
  \<^verbatim>\<open>Array.from({ length: n }, (_, i) => f(i))\<close> calls \<open>f\<close> on \<open>0, 1, ..., n - 1\<close> in
  order. The first form is for a callback that may throw, the second for a callback
  that draws from \<^verbatim>\<open>Math.random()\<close>.
\<close>

fun Array_from_loop :: "(nat \<Rightarrow> error + 'a) \<Rightarrow> nat \<Rightarrow> nat \<Rightarrow> 'a list \<Rightarrow> error + 'a list" where
  "Array_from_loop f i 0 acc = Inr acc"
| "Array_from_loop f i (Suc k) acc =
     (case f i of Inl e \<Rightarrow> Inl e | Inr v \<Rightarrow> Array_from_loop f (Suc i) k (acc @ [v]))"

definition Array_from :: "nat \<Rightarrow> (nat \<Rightarrow> error + 'a) \<Rightarrow> error + 'a list" where
  "Array_from n f = Array_from_loop f 0 n []"

fun Array_from_random_loop ::
  "(nat \<Rightarrow> (nat \<Rightarrow> real) \<Rightarrow> 'a \<times> (nat \<Rightarrow> real)) \<Rightarrow> nat \<Rightarrow> nat \<Rightarrow> 'a list \<Rightarrow> (nat \<Rightarrow> real)
     \<Rightarrow> 'a list \<times> (nat \<Rightarrow> real)" where
  "Array_from_random_loop f i 0 acc src = (acc, src)"
| "Array_from_random_loop f i (Suc k) acc src =
     (case f i src of (v, src') \<Rightarrow> Array_from_random_loop f (Suc i) k (acc @ [v]) src')"

definition Array_from_random ::
  "nat \<Rightarrow> (nat \<Rightarrow> (nat \<Rightarrow> real) \<Rightarrow> 'a \<times> (nat \<Rightarrow> real)) \<Rightarrow> (nat \<Rightarrow> real) \<Rightarrow> 'a list \<times> (nat \<Rightarrow> real)" where
  "Array_from_random n f src = Array_from_random_loop f 0 n [] src"

text \<open>The camera has \<^verbatim>\<open>fov = 75\<close> and \<^verbatim>\<open>position.z = 35\<close>; a resize changes its aspect.\<close>

definition getResponsiveScale :: "real \<Rightarrow> real" where
  "getResponsiveScale aspect =
     (let vFOV = degToRad 75;
          height = 2 * tan (vFOV / 2) * 35;
          width = height * aspect
      in (width / 512) * 0.8)"

text \<open>
  The test \<^verbatim>\<open>imageData[(y * 512 + x) * 4] > 128\<close> on the red byte of pixel \<open>(x, y)\<close>;
  a read past the end of the typed array is \<^verbatim>\<open>undefined\<close>, and the comparison false.
\<close>

definition foreground :: "8 word list \<Rightarrow> nat \<Rightarrow> nat \<Rightarrow> bool" where
  "foreground imageData x y =
     (case js_index imageData ((y * 512 + x) * 4) of None \<Rightarrow> False | Some v \<Rightarrow> 128 < unat v)"

function scan_row :: "8 word list \<Rightarrow> real \<Rightarrow> nat \<Rightarrow> nat \<Rightarrow> vector3 list \<Rightarrow> vector3 list" where
  "scan_row imageData scale y x points =
     (if x < 512 then
        scan_row imageData scale y (x + 2)
          (if foreground imageData x y
           then points @ [Vector3 ((real x - 256) * scale) ((64 - real y) * scale) 0]
           else points)
      else points)"
  by pat_completeness auto
termination
  by (relation "measure (\<lambda>(imageData, scale, y, x, points). 512 - x)") simp_all

declare scan_row.simps [simp del]

function scan_rows :: "8 word list \<Rightarrow> real \<Rightarrow> nat \<Rightarrow> vector3 list \<Rightarrow> vector3 list" where
  "scan_rows imageData scale y points =
     (if y < 128 then scan_rows imageData scale (y + 2) (scan_row imageData scale y 0 points)
      else points)"
  by pat_completeness auto
termination
  by (relation "measure (\<lambda>(imageData, scale, y, points). 128 - y)") simp_all

declare scan_rows.simps [simp del]

text \<open>
  \<^verbatim>\<open>createTextPoints\<close>, split at line 77: \<open>sampled_points\<close> is the array \<^verbatim>\<open>points\<close> that
  the two scanning loops build, \<open>cycle_fill\<close> the final \<^verbatim>\<open>Array.from\<close> with the callback
  \<^verbatim>\<open>points[i % points.length].clone()\<close>.
\<close>

definition sampled_points :: "8 word list \<Rightarrow> real \<Rightarrow> vector3 list" where
  "sampled_points imageData scale = scan_rows imageData scale 0 []"

definition cycle_fill :: "vector3 list \<Rightarrow> nat \<Rightarrow> error + vector3 list" where
  "cycle_fill points count =
     Array_from count
       (\<lambda>i. case js_rem i (length points) of
               None \<Rightarrow> Inl TypeError
             | Some j \<Rightarrow> (case js_index points j of None \<Rightarrow> Inl TypeError | Some p \<Rightarrow> Inr p))"

definition createTextPoints :: "env \<Rightarrow> real \<Rightarrow> string \<Rightarrow> nat \<Rightarrow> error + vector3 list" where
  "createTextPoints e aspect text count =
     cycle_fill (sampled_points (raster e text) (getResponsiveScale aspect)) count"

text \<open>The callbacks of the dispersed cloud and of the planet, for a particle count \<open>N\<close>.\<close>

definition randomPoint :: "(nat \<Rightarrow> real) \<Rightarrow> vector3 \<times> (nat \<Rightarrow> real)" where
  "randomPoint src =
     (let (r1, src1) = Math_random src;
          (r2, src2) = Math_random src1;
          (r3, src3) = Math_random src2
      in (Vector3 ((r1 - 0.5) * 60) ((r2 - 0.5) * 60) ((r3 - 0.5) * 60), src3))"

definition scaleFactor :: "bool \<Rightarrow> real" where
  "scaleFactor mobile = (if mobile then 0.6 else 1.0)"

definition saturn_phi :: "nat \<Rightarrow> nat \<Rightarrow> real" where
  "saturn_phi N i = arccos (- 1 + (2 * real i) / (real N * 0.4))"

definition saturn_theta :: "nat \<Rightarrow> nat \<Rightarrow> real" where
  "saturn_theta N i = sqrt (real N * 0.4 * pi) * saturn_phi N i"

definition saturnPoint :: "nat \<Rightarrow> bool \<Rightarrow> nat \<Rightarrow> (nat \<Rightarrow> real) \<Rightarrow> vector3 \<times> (nat \<Rightarrow> real)" where
  "saturnPoint N mobile i src =
     (let s = scaleFactor mobile in
      if real i < real N * 0.4 then
        (setFromSphericalCoords (15 * s) (saturn_phi N i) (saturn_theta N i), src)
      else
        let (r1, src1) = Math_random src;
            angle = r1 * pi * 2;
            (r2, src2) = Math_random src1;
            radius = (20 + r2 * 6) * s;
            (r3, src3) = Math_random src2
        in (Vector3 (cos angle * radius) ((r3 - 0.5) * 0.6) (sin angle * radius), src3))"

definition initShapes :: "env \<Rightarrow> state \<Rightarrow> (error \<times> state) + state" where
  "initShapes e s =
     (let N = PARTICLE_COUNT (isMobile e) in
      case createTextPoints e (camera_aspect s) ''WILL YOU'' N of
        Inl err \<Rightarrow> Inl (err, s)
      | Inr p1 \<Rightarrow>
     (let s1 = s\<lparr>willYouPoints := Some p1\<rparr> in
      case createTextPoints e (camera_aspect s1) ''BE MY'' N of
        Inl err \<Rightarrow> Inl (err, s1)
      | Inr p2 \<Rightarrow>
     (let s2 = s1\<lparr>beMyPoints := Some p2\<rparr> in
      case createTextPoints e (camera_aspect s2) ''VALENTINE?'' N of
        Inl err \<Rightarrow> Inl (err, s2)
      | Inr p3 \<Rightarrow>
     (let s3 = s2\<lparr>valentinesPoints := Some p3\<rparr>;
          (rp, src1) = Array_from_random N (\<lambda>i. randomPoint) (random_source s3);
          s4 = s3\<lparr>randomPoints := Some rp, random_source := src1\<rparr>;
          (sp, src2) = Array_from_random N (saturnPoint N (isMobile e)) (random_source s4)
      in Inr (s4\<lparr>saturnPoints := Some sp, random_source := src2\<rparr>)))))"

section \<open>The animation frame\<close>

definition targetSet_of :: "state \<Rightarrow> vector3 list option" where
  "targetSet_of s =
     (if currentGesture s = fist then saturnPoints s
      else if currentGesture s = peace then willYouPoints s
      else if currentGesture s = rock then beMyPoints s
      else if currentGesture s = like then valentinesPoints s
      else None)"

text \<open>
  The three assignments of the loop body, for particle \<open>i\<close> with target \<open>t\<close>. Each
  assignment stores into the \<^verbatim>\<open>Float32Array\<close>, so the value is rounded to single
  precision. A write past the end of the typed array does nothing, as the list update
  does.
\<close>

definition move_particle :: "vector3 \<Rightarrow> real \<Rightarrow> nat \<Rightarrow> real list \<Rightarrow> real list" where
  "move_particle t drift i positions =
     (let i3 = i * 3;
          p1 = positions[i3 :=
                 fround (positions ! i3 + ((vx t - positions ! i3) * SMOOTHING + drift))];
          p2 = p1[i3 + 1 :=
                 fround (p1 ! (i3 + 1) + ((vy t - p1 ! (i3 + 1)) * SMOOTHING + drift))]
      in p2[i3 + 2 :=
            fround (p2 ! (i3 + 2) + ((vz t - p2 ! (i3 + 2)) * SMOOTHING + drift))])"

function animate_loop ::
  "nat \<Rightarrow> vector3 list option \<Rightarrow> vector3 list option \<Rightarrow> real \<Rightarrow> nat \<Rightarrow> real list
     \<Rightarrow> (error \<times> real list) + real list" where
  "animate_loop N targetSet randomPts tm i positions =
     (if i < N then
        (case (case targetSet of
                 Some ts \<Rightarrow> js_index ts i
               | None \<Rightarrow> (case randomPts of None \<Rightarrow> None | Some rp \<Rightarrow> js_index rp i)) of
           None \<Rightarrow> Inl (TypeError, positions)
         | Some t \<Rightarrow>
             animate_loop N targetSet randomPts tm (i + 1)
               (move_particle t (case targetSet of Some ts \<Rightarrow> 0 | None \<Rightarrow> sin (tm + real i) * 0.04)
                  i positions))
      else Inr positions)"
  by pat_completeness auto
termination
  by (relation "measure (\<lambda>(N, targetSet, randomPts, tm, i, positions). N - i)") simp_all

declare animate_loop.simps [simp del]

text \<open>
  One call of \<^verbatim>\<open>animate\<close>. The colour and size of the material and the render call
  touch none of the globals below and are left out.
\<close>

definition animate :: "env \<Rightarrow> state \<Rightarrow> (error \<times> state) + state" where
  "animate e s =
     (let s1 = s\<lparr>time := time s + 0.01\<rparr>;
          targetSet = targetSet_of s1;
          s2 = s1\<lparr>particleSystem_position :=
                   lerp (particleSystem_position s1) (handDisplacement s1) ELASTICITY\<rparr>
      in case animate_loop (PARTICLE_COUNT (isMobile e)) targetSet (randomPoints s2) (time s2) 0
                (posArray s2) of
           Inl (err, ps) \<Rightarrow> Inl (err, s2\<lparr>posArray := ps\<rparr>)
         | Inr ps \<Rightarrow> Inr (s2\<lparr>posArray := ps\<rparr>))"





section \<open>The running program\<close>

text \<open>
  The script first sets the globals and calls \<^verbatim>\<open>initShapes\<close>; if that throws, the script
  stops and no handler is ever registered. The zeroed position buffer is created right
  after \<^verbatim>\<open>initShapes\<close>, which does not touch it, so the model puts it in the first state.
  A resize event carries the new aspect ratio \<^verbatim>\<open>innerWidth / innerHeight\<close>.
\<close>

definition globals0 :: "env \<Rightarrow> real \<Rightarrow> (nat \<Rightarrow> real) \<Rightarrow> state" where
  "globals0 e aspect src =
     \<lparr>currentGesture = none, time = 0, handDisplacement = Vector3 0 0 0,
      camera_aspect = aspect,
      willYouPoints = None, beMyPoints = None, valentinesPoints = None,
      saturnPoints = None, randomPoints = None,
      posArray = replicate (PARTICLE_COUNT (isMobile e) * 3) 0,
      particleSystem_position = Vector3 0 0 0,
      random_source = src\<rparr>"

definition startup :: "env \<Rightarrow> real \<Rightarrow> (nat \<Rightarrow> real) \<Rightarrow> error + state" where
  "startup e aspect src =
     (case initShapes e (globals0 e aspect src) of
        Inl (err, s) \<Rightarrow> Inl err
      | Inr s \<Rightarrow> Inr s)"

datatype event = LandmarkFrame results | AnimationFrame | Resize real

definition handle :: "env \<Rightarrow> event \<Rightarrow> state \<Rightarrow> (error \<times> state) + state" where
  "handle e ev s =
     (case ev of
        LandmarkFrame r \<Rightarrow> onResults r s
      | AnimationFrame \<Rightarrow> animate e s
      | Resize aspect \<Rightarrow> initShapes e (s\<lparr>camera_aspect := aspect\<rparr>))"

text \<open>The globals after a handler has run, whether it returned or threw.\<close>

definition state_after :: "(error \<times> state) + state \<Rightarrow> state" where
  "state_after res = (case res of Inl (err, s) \<Rightarrow> s | Inr s \<Rightarrow> s)"

inductive reachable :: "env \<Rightarrow> state \<Rightarrow> bool" for e :: env where
  reachable_start: "startup e aspect src = Inr s \<Longrightarrow> reachable e s"
| reachable_step: "reachable e s \<Longrightarrow> reachable e (state_after (handle e ev s))"

text \<open>Runs of the two periodic handlers.\<close>

fun landmark_frames :: "results list \<Rightarrow> state \<Rightarrow> state" where
  "landmark_frames [] s = s"
| "landmark_frames (r # rs) s = landmark_frames rs (state_after (onResults r s))"


text \<open>All five point sets are assigned and match the position buffer of three numbers per particle.\<close>

definition point_sets_sized :: "env \<Rightarrow> state \<Rightarrow> bool" where
  "point_sets_sized e s =
     (\<exists>w b v p r.
        willYouPoints s = Some w \<and> length w = PARTICLE_COUNT (isMobile e) \<and>
        beMyPoints s = Some b \<and> length b = PARTICLE_COUNT (isMobile e) \<and>
        valentinesPoints s = Some v \<and> length v = PARTICLE_COUNT (isMobile e) \<and>
        saturnPoints s = Some p \<and> length p = PARTICLE_COUNT (isMobile e) \<and>
        randomPoints s = Some r \<and> length r = PARTICLE_COUNT (isMobile e) \<and>
        length (posArray s) = PARTICLE_COUNT (isMobile e) * 3)"

section \<open>Sample inputs\<close>

text \<open>
  Concrete inputs on which the theorems below are exercised: a desktop environment
  whose rasteriser lights a single pixel, one whose rasteriser lights the two pixels
  \<open>(0, 0)\<close> and \<open>(2, 0)\<close>, one whose rasteriser lights none, a random source that always returns \<open>0\<close>, a
  hand of 21 landmarks whose joints sit at height \<open>0.5\<close> and whose four tips are given,
  and a frame without a hand.
\<close>

definition one_pixel :: "8 word list" where
  "one_pixel = (replicate 262144 0)[0 := 255]"

definition blank_canvas :: "8 word list" where
  "blank_canvas = replicate 262144 0"

definition two_pixels :: "8 word list" where
  "two_pixels = (replicate 262144 0)[0 := 255, 8 := 255]"

definition desktop_env :: env where
  "desktop_env = \<lparr>isMobile = False, raster = (\<lambda>text. one_pixel)\<rparr>"

definition blank_env :: env where
  "blank_env = \<lparr>isMobile = False, raster = (\<lambda>text. blank_canvas)\<rparr>"

definition two_pixel_env :: env where
  "two_pixel_env = \<lparr>isMobile = False, raster = (\<lambda>text. two_pixels)\<rparr>"

definition zero_source :: "nat \<Rightarrow> real" where
  "zero_source = (\<lambda>n. 0)"

definition hand_frame :: "real \<Rightarrow> real \<Rightarrow> real \<Rightarrow> real \<Rightarrow> results" where
  "hand_frame indexTip middleTip pinkyTip thumbTip =
     \<lparr>multiHandLandmarks = Some [(replicate 21 \<lparr>lx = 0.5, ly = 0.5\<rparr>)
        [8 := \<lparr>lx = 0.5, ly = indexTip\<rparr>, 12 := \<lparr>lx = 0.5, ly = middleTip\<rparr>,
         20 := \<lparr>lx = 0.5, ly = pinkyTip\<rparr>, 4 := \<lparr>lx = 0.5, ly = thumbTip\<rparr>]]\<rparr>"

definition no_hand :: results where
  "no_hand = \<lparr>multiHandLandmarks = Some []\<rparr>"

text \<open>
  A hand with only \<open>n\<close> landmarks, and two states: one where the gesture is peace, one
  where the hand has pulled the cloud to \<open>(10, -5, 0)\<close>.
\<close>

definition short_hand :: "nat \<Rightarrow> results" where
  "short_hand n = \<lparr>multiHandLandmarks = Some [replicate n \<lparr>lx = 0.5, ly = 0.5\<rparr>]\<rparr>"

definition peace_state :: state where
  "peace_state = (globals0 desktop_env 1 zero_source)\<lparr>currentGesture := peace\<rparr>"

definition displaced_state :: state where
  "displaced_state = (globals0 desktop_env 1 zero_source)\<lparr>handDisplacement := Vector3 10 (- 5) 0\<rparr>"

text \<open>
  The state right after the desktop script has started with the one-pixel rasteriser,
  and the state after a hand frame, an animation frame and a resize.
\<close>

definition started_state :: state where
  "started_state =
     (globals0 desktop_env 1 zero_source)
       \<lparr>willYouPoints := Some (replicate (PARTICLE_COUNT False)
            (Vector3 (- 256 * getResponsiveScale 1) (64 * getResponsiveScale 1) 0)),
        beMyPoints := Some (replicate (PARTICLE_COUNT False)
            (Vector3 (- 256 * getResponsiveScale 1) (64 * getResponsiveScale 1) 0)),
        valentinesPoints := Some (replicate (PARTICLE_COUNT False)
            (Vector3 (- 256 * getResponsiveScale 1) (64 * getResponsiveScale 1) 0)),
        randomPoints := Some (replicate (PARTICLE_COUNT False) (Vector3 (- 30) (- 30) (- 30))),
        saturnPoints := Some (map (\<lambda>i. fst (saturnPoint (PARTICLE_COUNT False) False i zero_source))
            [0..<PARTICLE_COUNT False])\<rparr>"

definition sample_run :: state where
  "sample_run =
     state_after (handle desktop_env (Resize 2)
       (state_after (handle desktop_env AnimationFrame
         (state_after (handle desktop_env (LandmarkFrame (hand_frame 0.2 0.2 0.8 0.8))
            started_state)))))"



section \<open>Properties of the landmark handler\<close>

lemma finger_up_complete:
  "tip < length lm \<Longrightarrow> joint < length lm \<Longrightarrow>
   finger_up lm tip joint = Some (ly (lm ! tip) < ly (lm ! joint))"
  by (simp add: finger_up_def js_index_def)

lemma onResults_complete:
  assumes "multiHandLandmarks r = Some (lm # rest)" and "21 \<le> length lm"
  shows "onResults r s =
    Inr (s\<lparr>handDisplacement :=
             (handDisplacement s)\<lparr>vx := (lx (lm ! 0) - 0.5) * (- 40), vy := (0.5 - ly (lm ! 0)) * 30\<rparr>,
           currentGesture :=
             classify (ly (lm ! 8) < ly (lm ! 6)) (ly (lm ! 12) < ly (lm ! 10))
                      (ly (lm ! 20) < ly (lm ! 18)) (ly (lm ! 4) < ly (lm ! 2))\<rparr>)"
  using assms by (auto simp add: onResults_def finger_up_complete js_index_def Let_def)

text \<open>
  Claim C1. On a landmark frame with a detected hand (all 21 landmarks present) the
  handler returns, and the gesture it stores is decided by the four comparisons
  index \<open>lm[8].y < lm[6].y\<close>, middle \<open>lm[12].y < lm[10].y\<close>, pinky
  \<open>lm[20].y < lm[18].y\<close> and thumb \<open>lm[4].y < lm[2].y\<close> alone, by the priority
  table: peace, else rock, else like, else fist, else detected.
\<close>

theorem gesture_priority_table:
  assumes "multiHandLandmarks r = Some (lm # rest)" and "21 \<le> length lm"
    and "indexUp = (ly (lm ! 8) < ly (lm ! 6))"
    and "middleUp = (ly (lm ! 12) < ly (lm ! 10))"
    and "pinkyUp = (ly (lm ! 20) < ly (lm ! 18))"
    and "thumbUp = (ly (lm ! 4) < ly (lm ! 2))"
  shows "\<exists>s'. onResults r s = Inr s' \<and>
      currentGesture s' =
        (if indexUp \<and> middleUp \<and> \<not> pinkyUp then peace
         else if indexUp \<and> pinkyUp \<and> \<not> middleUp then rock
         else if thumbUp \<and> \<not> indexUp \<and> \<not> middleUp then like
         else if \<not> indexUp \<and> \<not> middleUp \<and> \<not> pinkyUp then fist
         else detected) \<and>
      (indexUp \<and> middleUp \<and> \<not> pinkyUp \<and> \<not> thumbUp \<longrightarrow> currentGesture s' = peace) \<and>
      (\<not> indexUp \<and> \<not> middleUp \<and> \<not> pinkyUp \<and> \<not> thumbUp \<longrightarrow> currentGesture s' = fist)"
  unfolding onResults_complete [OF assms(1,2)] using assms(3-6)
  by (simp add: classify_def)

theorem gesture_priority_table_witness:
  "(\<exists>s'. onResults (hand_frame 0.2 0.2 0.8 0.8) (globals0 desktop_env 1 zero_source) = Inr s' \<and>
         currentGesture s' = peace) \<and>
   (\<exists>s'. onResults (hand_frame 0.8 0.8 0.8 0.8) (globals0 desktop_env 1 zero_source) = Inr s' \<and>
         currentGesture s' = fist)"
  using
    gesture_priority_table [of "hand_frame 0.2 0.2 0.8 0.8"
      "(replicate 21 \<lparr>lx = 0.5, ly = 0.5\<rparr>)
        [8 := \<lparr>lx = 0.5, ly = 0.2\<rparr>, 12 := \<lparr>lx = 0.5, ly = 0.2\<rparr>,
         20 := \<lparr>lx = 0.5, ly = 0.8\<rparr>, 4 := \<lparr>lx = 0.5, ly = 0.8\<rparr>]" "[]"
      True True False False "globals0 desktop_env 1 zero_source"]
    gesture_priority_table [of "hand_frame 0.8 0.8 0.8 0.8"
      "(replicate 21 \<lparr>lx = 0.5, ly = 0.5\<rparr>)
        [8 := \<lparr>lx = 0.5, ly = 0.8\<rparr>, 12 := \<lparr>lx = 0.5, ly = 0.8\<rparr>,
         20 := \<lparr>lx = 0.5, ly = 0.8\<rparr>, 4 := \<lparr>lx = 0.5, ly = 0.8\<rparr>]" "[]"
      False False False False "globals0 desktop_env 1 zero_source"]
  by (simp add: hand_frame_def)

lemma onResults_incomplete:
  assumes "multiHandLandmarks r = Some (lm # rest)" and "length lm < 21"
  shows "\<exists>s'. onResults r s = Inl (TypeError, s') \<and> currentGesture s' = currentGesture s"
  using assms
  by (auto simp add: onResults_def finger_up_def js_index_def Let_def split: option.splits)

text \<open>
  A hand of five landmarks while the gesture is peace: the handler reads \<open>lm[8]\<close> out
  of range, throws on \<open>lm[8].y\<close> and leaves the gesture at peace, neither none nor
  detected.
\<close>

theorem incomplete_landmarks_counterexample:
  "onResults (short_hand 5) peace_state = Inl (TypeError, peace_state) \<and>
   currentGesture peace_state \<noteq> none \<and> currentGesture peace_state \<noteq> detected"
  by (simp add: onResults_def short_hand_def peace_state_def globals0_def finger_up_def
        js_index_def Vector3_def)

text \<open>
  Claim C3, as the code has it. The handler has no check of the landmark count. On a
  detected hand with fewer than 21 landmarks it reads a missing landmark, throws a
  \<open>TypeError\<close> and leaves the gesture as it was; with 21 or more landmarks it returns
  with a classified gesture (never none).
\<close>

theorem landmarks_unguarded:
  assumes "multiHandLandmarks r = Some (lm # rest)"
  shows "(length lm < 21 \<longrightarrow>
            (\<exists>s'. onResults r s = Inl (TypeError, s') \<and> currentGesture s' = currentGesture s)) \<and>
         (21 \<le> length lm \<longrightarrow>
            (\<exists>s'. onResults r s = Inr s' \<and> currentGesture s' \<noteq> none))"
proof (intro conjI impI)
  assume "length lm < 21"
  with assms show "\<exists>s'. onResults r s = Inl (TypeError, s') \<and> currentGesture s' = currentGesture s"
    by (rule onResults_incomplete)
next
  assume "21 \<le> length lm"
  with assms show "\<exists>s'. onResults r s = Inr s' \<and> currentGesture s' \<noteq> none"
    by (simp add: onResults_complete classify_def)
qed

theorem landmarks_unguarded_witness:
  "(\<exists>s'. onResults (short_hand 5) peace_state = Inl (TypeError, s') \<and> currentGesture s' = peace) \<and>
   (\<exists>s'. onResults (short_hand 21) peace_state = Inr s' \<and> currentGesture s' \<noteq> none)"
  using landmarks_unguarded [of "short_hand 5" "replicate 5 \<lparr>lx = 0.5, ly = 0.5\<rparr>" "[]" peace_state]
    landmarks_unguarded [of "short_hand 21" "replicate 21 \<lparr>lx = 0.5, ly = 0.5\<rparr>" "[]" peace_state]
  by (simp add: short_hand_def peace_state_def)

lemma onResults_no_hand:
  "\<not> hand_detected r \<Longrightarrow>
   onResults r s = Inr (s\<lparr>currentGesture := none,
                           handDisplacement := lerp (handDisplacement s) (Vector3 0 0 0) 0.05\<rparr>)"
  by (auto simp add: onResults_def hand_detected_def split: option.splits list.splits)

lemma lerp_zero: "lerp v (Vector3 0 0 0) a = vscale (1 - a) v"
  by (simp add: lerp_def Vector3_def vscale_def algebra_simps)

lemma vscale_vscale: "vscale a (vscale b v) = vscale (a * b) v"
  by (simp add: vscale_def)

lemma vscale_one: "vscale 1 v = v"
  by (simp add: vscale_def)

lemma vlength_vscale: "vlength (vscale c v) = \<bar>c\<bar> * vlength v"
proof -
  have "(c * vx v)\<^sup>2 + (c * vy v)\<^sup>2 + (c * vz v)\<^sup>2 = c\<^sup>2 * ((vx v)\<^sup>2 + (vy v)\<^sup>2 + (vz v)\<^sup>2)"
    by (simp add: power_mult_distrib algebra_simps)
  then show ?thesis
    by (simp add: vlength_def vscale_def real_sqrt_mult)
qed

lemma vlength_nonneg: "0 \<le> vlength v"
  by (simp add: vlength_def)

lemma vlength_zero_iff: "vlength v = 0 \<longleftrightarrow> vx v = 0 \<and> vy v = 0 \<and> vz v = 0"
  by (simp add: vlength_def sum_power2_eq_zero_iff add_nonneg_eq_0_iff)

lemma landmark_frames_no_hand:
  "\<forall>r \<in> set rs. \<not> hand_detected r \<Longrightarrow>
   handDisplacement (landmark_frames rs s) = vscale ((95 / 100) ^ length rs) (handDisplacement s) \<and>
   (rs \<noteq> [] \<longrightarrow> currentGesture (landmark_frames rs s) = none)"
proof (induction rs arbitrary: s)
  case Nil
  show ?case by (simp add: vscale_one)
next
  case (Cons r rs)
  let ?s1 = "s\<lparr>currentGesture := none, handDisplacement := lerp (handDisplacement s) (Vector3 0 0 0) 0.05\<rparr>"
  from Cons.prems have step: "state_after (onResults r s) = ?s1"
    by (simp add: onResults_no_hand state_after_def)
  from Cons.prems have rest: "\<forall>r \<in> set rs. \<not> hand_detected r" by simp
  have ih: "handDisplacement (landmark_frames rs ?s1) = vscale ((95 / 100) ^ length rs) (handDisplacement ?s1)"
    and ihg: "rs \<noteq> [] \<longrightarrow> currentGesture (landmark_frames rs ?s1) = none"
    using Cons.IH [OF rest, of ?s1] by simp_all
  show ?case
  proof (cases rs)
    case Nil
    then show ?thesis using step by (simp add: lerp_zero)
  next
    case (Cons a list)
    then show ?thesis using step ih ihg by (simp add: lerp_zero vscale_vscale mult.commute)
  qed
qed


lemma landmark_frames_append:
  "landmark_frames (rs @ rs') s = landmark_frames rs' (landmark_frames rs s)"
  by (induction rs arbitrary: s) simp_all

lemma decay_factor_bounds: "0 \<le> (95 / 100 :: real) ^ n \<and> (95 / 100 :: real) ^ n \<le> 1"
  by (simp add: power_le_one)

text \<open>
  Claim C8. A frame without a hand sets the gesture to none and blends the hand
  displacement with the zero vector at factor 0.05. After any run \<open>rs\<close> of such frames
  the displacement is \<open>0.95 ^ length rs\<close> times the initial one; one more such frame
  does not lengthen it, and shortens it when it is not zero; each component stays
  between zero and its initial value, so none crosses zero.
\<close>

theorem no_hand_decay:
  assumes "\<forall>r \<in> set rs. \<not> hand_detected r" and "\<not> hand_detected r"
  shows "onResults r s =
           Inr (s\<lparr>currentGesture := none,
                   handDisplacement := lerp (handDisplacement s) (Vector3 0 0 0) 0.05\<rparr>) \<and>
         currentGesture (landmark_frames (rs @ [r]) s) = none \<and>
         handDisplacement (landmark_frames rs s) = vscale (0.95 ^ length rs) (handDisplacement s) \<and>
         vlength (handDisplacement (landmark_frames (rs @ [r]) s))
           \<le> vlength (handDisplacement (landmark_frames rs s)) \<and>
         (vlength (handDisplacement s) \<noteq> 0 \<longrightarrow>
            vlength (handDisplacement (landmark_frames (rs @ [r]) s))
              < vlength (handDisplacement (landmark_frames rs s))) \<and>
         (\<forall>c \<in> {vx, vy, vz}.
            (0 \<le> c (handDisplacement s) \<longrightarrow>
               0 \<le> c (handDisplacement (landmark_frames rs s)) \<and>
               c (handDisplacement (landmark_frames rs s)) \<le> c (handDisplacement s)) \<and>
            (c (handDisplacement s) \<le> 0 \<longrightarrow>
               c (handDisplacement s) \<le> c (handDisplacement (landmark_frames rs s)) \<and>
               c (handDisplacement (landmark_frames rs s)) \<le> 0))"
proof -
  let ?d = "handDisplacement s"
  let ?q = "(95 / 100 :: real) ^ length rs"
  have all: "\<forall>r' \<in> set (rs @ [r]). \<not> hand_detected r'"
    using assms by simp
  have one: "onResults r s =
      Inr (s\<lparr>currentGesture := none,
              handDisplacement := lerp (handDisplacement s) (Vector3 0 0 0) 0.05\<rparr>)"
    using assms(2) by (rule onResults_no_hand)
  have gest: "currentGesture (landmark_frames (rs @ [r]) s) = none"
    using landmark_frames_no_hand [OF all, of s] by simp
  have d1: "handDisplacement (landmark_frames rs s) = vscale ?q ?d"
    using landmark_frames_no_hand [OF assms(1), of s] by simp
  have d2: "handDisplacement (landmark_frames (rs @ [r]) s) = vscale (?q * (95 / 100)) ?d"
    using landmark_frames_no_hand [OF all, of s] by (simp add: mult.commute)
  have q0: "0 \<le> ?q" and q1: "?q \<le> 1"
    using decay_factor_bounds [of "length rs"] by simp_all
  have qpos: "0 < ?q" by simp
  have l1: "vlength (vscale ?q ?d) = ?q * vlength ?d"
    using q0 by (simp add: vlength_vscale)
  have l2: "vlength (vscale (?q * (95 / 100)) ?d) = ?q * (95 / 100) * vlength ?d"
    using q0 by (simp add: vlength_vscale abs_mult)
  have le: "?q * (95 / 100) * vlength ?d \<le> ?q * vlength ?d"
    using q0 vlength_nonneg [of ?d] by (simp add: mult_left_mono mult_right_mono)
  have less: "vlength ?d \<noteq> 0 \<Longrightarrow> ?q * (95 / 100) * vlength ?d < ?q * vlength ?d"
  proof -
    assume "vlength ?d \<noteq> 0"
    with vlength_nonneg [of ?d] have "0 < vlength ?d" by simp
    with qpos have "0 < ?q * vlength ?d" by simp
    moreover have "?q * (95 / 100) * vlength ?d = (95 / 100) * (?q * vlength ?d)" by simp
    ultimately show ?thesis by linarith
  qed
  have comp: "\<And>x :: real. (0 \<le> x \<longrightarrow> 0 \<le> ?q * x \<and> ?q * x \<le> x) \<and>
                         (x \<le> 0 \<longrightarrow> x \<le> ?q * x \<and> ?q * x \<le> 0)"
  proof (intro conjI impI)
    fix x :: real
    { assume "0 \<le> x"
      then show "0 \<le> ?q * x" using q0 by simp
      from \<open>0 \<le> x\<close> q1 have "?q * x \<le> 1 * x" by (rule mult_right_mono [rotated])
      then show "?q * x \<le> x" by simp }
    { assume "x \<le> 0"
      then show "?q * x \<le> 0" using q0 by (simp add: mult_nonneg_nonpos)
      from \<open>x \<le> 0\<close> q1 have "1 * x \<le> ?q * x" by (rule mult_right_mono_neg [rotated])
      then show "x \<le> ?q * x" by simp }
  qed
  have sign: "\<forall>c \<in> {vx, vy, vz}.
            (0 \<le> c ?d \<longrightarrow> 0 \<le> c (vscale ?q ?d) \<and> c (vscale ?q ?d) \<le> c ?d) \<and>
            (c ?d \<le> 0 \<longrightarrow> c ?d \<le> c (vscale ?q ?d) \<and> c (vscale ?q ?d) \<le> 0)"
    using comp [of "vx ?d"] comp [of "vy ?d"] comp [of "vz ?d"]
    by (simp add: vscale_def)
  show ?thesis
    unfolding d1 d2 l1 l2
    using one gest d1 le less sign by simp
qed

theorem no_hand_decay_witness:
  "currentGesture (landmark_frames (replicate 10 no_hand @ [no_hand]) displaced_state) = none \<and>
   handDisplacement (landmark_frames (replicate 10 no_hand) displaced_state)
     = vscale (0.95 ^ 10) (Vector3 10 (- 5) 0) \<and>
   vlength (handDisplacement (landmark_frames (replicate 10 no_hand @ [no_hand]) displaced_state))
     < vlength (handDisplacement (landmark_frames (replicate 10 no_hand) displaced_state)) \<and>
   0 \<le> vx (handDisplacement (landmark_frames (replicate 10 no_hand) displaced_state)) \<and>
   vx (handDisplacement (landmark_frames (replicate 10 no_hand) displaced_state)) \<le> 10 \<and>
   - 5 \<le> vy (handDisplacement (landmark_frames (replicate 10 no_hand) displaced_state)) \<and>
   vy (handDisplacement (landmark_frames (replicate 10 no_hand) displaced_state)) \<le> 0"
proof -
  have h1: "\<forall>r \<in> set (replicate 10 no_hand). \<not> hand_detected r"
    by (simp add: no_hand_def hand_detected_def)
  have h2: "\<not> hand_detected no_hand"
    by (simp add: no_hand_def hand_detected_def)
  have d: "handDisplacement displaced_state = Vector3 10 (- 5) 0"
    by (simp add: displaced_state_def)
  have nz: "vlength (Vector3 10 (- 5) 0) \<noteq> 0"
    by (simp add: vlength_zero_iff Vector3_def)
  have c: "vx (Vector3 10 (- 5) 0) = 10" "vy (Vector3 10 (- 5) 0) = - 5"
    by (simp_all add: Vector3_def)
  let ?a = "handDisplacement (landmark_frames (replicate 10 no_hand) displaced_state)"
  let ?b = "handDisplacement (landmark_frames (replicate 10 no_hand @ [no_hand]) displaced_state)"
  note T = no_hand_decay [OF h1 h2, of displaced_state, unfolded d]
  from T have g: "currentGesture (landmark_frames (replicate 10 no_hand @ [no_hand]) displaced_state) = none"
    by blast
  from T have v: "?a = vscale (0.95 ^ length (replicate 10 no_hand)) (Vector3 10 (- 5) 0)"
    by blast
  from T nz have l: "vlength ?b < vlength ?a"
    by blast
  from T have "0 \<le> vx (Vector3 10 (- 5) 0) \<longrightarrow> 0 \<le> vx ?a \<and> vx ?a \<le> vx (Vector3 10 (- 5) 0)"
    by blast
  then have x: "0 \<le> vx ?a \<and> vx ?a \<le> 10"
    by (simp add: c)
  from T have "vy (Vector3 10 (- 5) 0) \<le> 0 \<longrightarrow> vy (Vector3 10 (- 5) 0) \<le> vy ?a \<and> vy ?a \<le> 0"
    by blast
  then have y: "- 5 \<le> vy ?a \<and> vy ?a \<le> 0"
    by (simp add: c)
  from v have v': "?a = vscale (0.95 ^ 10) (Vector3 10 (- 5) 0)"
    by simp
  show ?thesis
    using g v' l x y by blast
qed

section \<open>Properties of \<^verbatim>\<open>Array.from\<close>\<close>

lemma Array_from_loop_length:
  "Array_from_loop f i k acc = Inr xs \<Longrightarrow> length xs = length acc + k"
  by (induction k arbitrary: i acc) (auto split: sum.splits)

lemma Array_from_loop_map:
  "(\<And>j. i \<le> j \<Longrightarrow> j < i + k \<Longrightarrow> f j = Inr (g j)) \<Longrightarrow>
   Array_from_loop f i k acc = Inr (acc @ map g [i..<i + k])"
proof (induction k arbitrary: i acc)
  case 0
  show ?case by simp
next
  case (Suc k)
  have here: "f i = Inr (g i)"
    using Suc.prems [of i] by simp
  have later: "Array_from_loop f (Suc i) k (acc @ [g i]) = Inr ((acc @ [g i]) @ map g [Suc i..<Suc i + k])"
    by (rule Suc.IH) (simp add: Suc.prems)
  have "[i..<i + Suc k] = i # [Suc i..<Suc i + k]"
    by (simp add: upt_conv_Cons)
  with here later show ?case by simp
qed

lemma Array_from_random_loop_length:
  "length (fst (Array_from_random_loop f i k acc src)) = length acc + k"
  by (induction k arbitrary: i acc src) (auto split: prod.splits)

lemma Array_from_random_length: "length (fst (Array_from_random n f src)) = n"
  by (simp add: Array_from_random_def Array_from_random_loop_length)

lemma Array_from_random_loop_fixed:
  "(\<And>j. f j src = (g j, src)) \<Longrightarrow>
   Array_from_random_loop f i k acc src = (acc @ map g [i..<i + k], src)"
proof (induction k arbitrary: i acc)
  case 0
  show ?case by simp
next
  case (Suc k)
  have later: "Array_from_random_loop f (Suc i) k (acc @ [g i]) src
      = ((acc @ [g i]) @ map g [Suc i..<Suc i + k], src)"
    by (rule Suc.IH) (rule Suc.prems)
  have "[i..<i + Suc k] = i # [Suc i..<Suc i + k]"
    by (simp add: upt_conv_Cons)
  with later Suc.prems [of i] show ?case by simp
qed

lemma Array_from_random_fixed:
  "(\<And>j. f j src = (g j, src)) \<Longrightarrow> Array_from_random n f src = (map g [0..<n], src)"
  using Array_from_random_loop_fixed [of f src g 0 n "[]"]
  by (simp add: Array_from_random_def)

section \<open>Properties of the text shapes\<close>

lemma cycle_fill_nonempty:
  assumes "points \<noteq> []"
  shows "cycle_fill points count = Inr (map (\<lambda>i. points ! (i mod length points)) [0..<count])"
proof -
  have "Array_from_loop
          (\<lambda>i. case js_rem i (length points) of
                  None \<Rightarrow> Inl TypeError
                | Some j \<Rightarrow> (case js_index points j of None \<Rightarrow> Inl TypeError | Some p \<Rightarrow> Inr p))
          0 count []
        = Inr ([] @ map (\<lambda>i. points ! (i mod length points)) [0..<0 + count])"
    by (rule Array_from_loop_map) (use assms in \<open>simp add: js_rem_def js_index_def\<close>)
  then show ?thesis
    by (simp add: cycle_fill_def Array_from_def)
qed

lemma cycle_fill_empty:
  "0 < count \<Longrightarrow> cycle_fill [] count = Inl TypeError"
  by (cases count) (simp_all add: cycle_fill_def Array_from_def js_rem_def)

lemma cycle_fill_zero: "cycle_fill points 0 = Inr []"
  by (simp add: cycle_fill_def Array_from_def)

lemma cycle_fill_length: "cycle_fill points count = Inr xs \<Longrightarrow> length xs = count"
  using Array_from_loop_length [of _ 0 count "[]" xs]
  by (simp add: cycle_fill_def Array_from_def)

lemma createTextPoints_length:
  "createTextPoints e aspect text count = Inr xs \<Longrightarrow> length xs = count"
  by (simp add: createTextPoints_def cycle_fill_length)

lemma scan_row_skip:
  "(\<And>x'. x \<le> x' \<Longrightarrow> \<not> foreground imageData x' y) \<Longrightarrow>
   scan_row imageData scale y x points = points"
proof (induction imageData scale y x points rule: scan_row.induct)
  case (1 imageData scale y x points)
  show ?case
  proof (cases "x < 512")
    case True
    have no: "\<not> foreground imageData x y"
      using "1.prems" [of x] by simp
    have "scan_row imageData scale y (x + 2) points = points"
      using "1.IH" [OF True] no "1.prems" by simp
    with True no show ?thesis
      by (subst scan_row.simps) simp
  next
    case False
    then show ?thesis by (subst scan_row.simps) simp
  qed
qed

lemma scan_rows_skip:
  "(\<And>x' y'. y \<le> y' \<Longrightarrow> \<not> foreground imageData x' y') \<Longrightarrow>
   scan_rows imageData scale y points = points"
proof (induction imageData scale y points rule: scan_rows.induct)
  case (1 imageData scale y points)
  show ?case
  proof (cases "y < 128")
    case True
    have row: "scan_row imageData scale y 0 points = points"
      by (rule scan_row_skip) (simp add: "1.prems")
    have "scan_rows imageData scale (y + 2) (scan_row imageData scale y 0 points)
            = scan_row imageData scale y 0 points"
      using "1.IH" [OF True] "1.prems" by simp
    with True row show ?thesis
      by (subst scan_rows.simps) simp
  next
    case False
    then show ?thesis by (subst scan_rows.simps) simp
  qed
qed

lemma foreground_blank: "\<not> foreground blank_canvas x y"
  by (simp add: foreground_def blank_canvas_def js_index_def)

lemma foreground_one_pixel: "foreground one_pixel x y \<longleftrightarrow> x = 0 \<and> y = 0"
  by (auto simp add: foreground_def one_pixel_def js_index_def nth_list_update)

lemma sampled_points_blank: "sampled_points blank_canvas scale = []"
  unfolding sampled_points_def
  by (rule scan_rows_skip) (rule foreground_blank)

lemma sampled_points_one_pixel:
  "sampled_points one_pixel scale = [Vector3 (- 256 * scale) (64 * scale) 0]"
proof -
  let ?p = "Vector3 (- 256 * scale) (64 * scale) 0"
  have row0: "scan_row one_pixel scale 0 0 [] = scan_row one_pixel scale 0 (0 + 2) [?p]"
    by (subst scan_row.simps) (simp add: foreground_one_pixel)
  have "scan_row one_pixel scale 0 (0 + 2) [?p] = [?p]"
    by (rule scan_row_skip) (simp add: foreground_one_pixel)
  with row0 have row: "scan_row one_pixel scale 0 0 [] = [?p]" by simp
  have rows: "scan_rows one_pixel scale 0 [] = scan_rows one_pixel scale (0 + 2) [?p]"
    by (subst scan_rows.simps) (simp add: row)
  have "scan_rows one_pixel scale (0 + 2) [?p] = [?p]"
    by (rule scan_rows_skip) (simp add: foreground_one_pixel)
  with rows show ?thesis by (simp add: sampled_points_def)
qed

text \<open>
  A rasteriser that lights no pixel: the sampled array is empty. With \<open>count = 0\<close> the
  fill returns the empty set and nothing fails; with \<open>count = 15000\<close> the fill takes
  \<open>0 % 0\<close>, which is \<open>NaN\<close>, and what fails is the property read on the missing
  element.
\<close>

theorem empty_raster_counterexample:
  "sampled_points (raster blank_env ''WILL YOU'') (getResponsiveScale 1) = [] \<and>
   createTextPoints blank_env 1 ''WILL YOU'' 0 = Inr [] \<and>
   js_rem 0 (length (sampled_points (raster blank_env ''WILL YOU'') (getResponsiveScale 1))) = None \<and>
   createTextPoints blank_env 1 ''WILL YOU'' 15000 = Inl TypeError"
  by (simp add: blank_env_def sampled_points_blank createTextPoints_def cycle_fill_zero
        cycle_fill_empty js_rem_def)

text \<open>
  Claim C2, as the code has it. \<^verbatim>\<open>createTextPoints\<close> has no guard for an empty sample
  array. For a count of at least one the fill takes \<open>0 % 0\<close> (\<open>NaN\<close>), reads a missing
  element and throws a \<open>TypeError\<close> at once, so no point set is produced; for a count
  of zero it returns the empty set.
\<close>

theorem empty_raster_throws:
  assumes "sampled_points (raster e text) (getResponsiveScale aspect) = []"
  shows "(0 < count \<longrightarrow>
            js_rem 0 (length (sampled_points (raster e text) (getResponsiveScale aspect))) = None \<and>
            createTextPoints e aspect text count = Inl TypeError) \<and>
         (count = 0 \<longrightarrow> createTextPoints e aspect text count = Inr [])"
  using assms
  by (simp add: createTextPoints_def cycle_fill_zero cycle_fill_empty js_rem_def)

theorem empty_raster_throws_witness:
  "js_rem 0 (length (sampled_points (raster blank_env ''BE MY'') (getResponsiveScale 2))) = None \<and>
   createTextPoints blank_env 2 ''BE MY'' 8000 = Inl TypeError \<and>
   createTextPoints blank_env 2 ''BE MY'' 0 = Inr []"
proof -
  have h: "sampled_points (raster blank_env ''BE MY'') (getResponsiveScale 2) = []"
    by (simp add: blank_env_def sampled_points_blank)
  show ?thesis
    using empty_raster_throws [OF h, of 8000] empty_raster_throws [OF h, of 0]
    by simp
qed

text \<open>
  Claim C5. When the sampled array has \<open>M\<close> points with \<open>1 \<le> M < N\<close>, the text shape for
  count \<open>N\<close> is produced, has exactly \<open>N\<close> points, and its point \<open>i\<close> is sample
  \<open>i mod M\<close>, for every \<open>i < N\<close>.
\<close>

theorem text_points_cycle:
  assumes "points = sampled_points (raster e text) (getResponsiveScale aspect)"
    and "1 \<le> length points" and "length points < N"
  shows "\<exists>out. createTextPoints e aspect text N = Inr out \<and> length out = N \<and>
           (\<forall>i<N. out ! i = points ! (i mod length points))"
proof -
  from assms(2) have ne: "points \<noteq> []" by auto
  have "createTextPoints e aspect text N
          = Inr (map (\<lambda>i. points ! (i mod length points)) [0..<N])"
    unfolding createTextPoints_def assms(1) [symmetric]
    by (rule cycle_fill_nonempty [OF ne])
  then show ?thesis by simp
qed

lemma foreground_two_pixels: "foreground two_pixels x y \<longleftrightarrow> y = 0 \<and> (x = 0 \<or> x = 2)"
proof -
  have "foreground two_pixels x y \<longleftrightarrow> (y * 512 + x) * 4 = 0 \<or> (y * 512 + x) * 4 = 8"
    by (auto simp add: foreground_def two_pixels_def js_index_def nth_list_update)
  also have "\<dots> \<longleftrightarrow> y = 0 \<and> (x = 0 \<or> x = 2)"
    by (cases y) auto
  finally show ?thesis .
qed

lemma sampled_points_two_pixels:
  "sampled_points two_pixels scale
     = [Vector3 (- 256 * scale) (64 * scale) 0, Vector3 (- 254 * scale) (64 * scale) 0]"
proof -
  let ?p = "Vector3 (- 256 * scale) (64 * scale) 0"
  let ?q = "Vector3 (- 254 * scale) (64 * scale) 0"
  have a: "scan_row two_pixels scale 0 0 [] = scan_row two_pixels scale 0 (0 + 2) [?p]"
    by (subst scan_row.simps) (simp add: foreground_two_pixels)
  have b: "scan_row two_pixels scale 0 (0 + 2) [?p] = scan_row two_pixels scale 0 (0 + 2 + 2) [?p, ?q]"
    by (subst scan_row.simps) (simp add: foreground_two_pixels)
  have c: "scan_row two_pixels scale 0 (0 + 2 + 2) [?p, ?q] = [?p, ?q]"
    by (rule scan_row_skip) (simp add: foreground_two_pixels)
  from a b c have row: "scan_row two_pixels scale 0 0 [] = [?p, ?q]" by simp
  have rows: "scan_rows two_pixels scale 0 [] = scan_rows two_pixels scale (0 + 2) [?p, ?q]"
    by (subst scan_rows.simps) (simp add: row)
  have "scan_rows two_pixels scale (0 + 2) [?p, ?q] = [?p, ?q]"
    by (rule scan_rows_skip) (simp add: foreground_two_pixels)
  with rows show ?thesis by (simp add: sampled_points_def)
qed

lemma getResponsiveScale_pos: "0 < aspect \<Longrightarrow> 0 < getResponsiveScale aspect"
proof -
  assume a: "0 < aspect"
  have "0 < tan (degToRad 75 / 2)"
  proof (rule tan_gt_zero)
    show "0 < degToRad 75 / 2"
      by (simp add: degToRad_def)
    have "degToRad 75 / 2 = (5 / 24) * pi"
      by (simp add: degToRad_def)
    also have "\<dots> < (1 / 2) * pi"
      by (intro mult_strict_right_mono) simp_all
    finally show "degToRad 75 / 2 < pi / 2"
      by simp
  qed
  with a show ?thesis
    by (simp add: getResponsiveScale_def Let_def)
qed

theorem text_points_cycle_witness:
  "\<exists>out. createTextPoints two_pixel_env 1 ''BE MY'' 5 = Inr out \<and> length out = 5 \<and>
     out ! 0 = Vector3 (- 256 * getResponsiveScale 1) (64 * getResponsiveScale 1) 0 \<and>
     out ! 1 = Vector3 (- 254 * getResponsiveScale 1) (64 * getResponsiveScale 1) 0 \<and>
     out ! 2 = out ! 0 \<and> out ! 3 = out ! 1 \<and> out ! 4 = out ! 0 \<and> out ! 1 \<noteq> out ! 0"
proof -
  let ?p = "Vector3 (- 256 * getResponsiveScale 1) (64 * getResponsiveScale 1) 0"
  let ?q = "Vector3 (- 254 * getResponsiveScale 1) (64 * getResponsiveScale 1) 0"
  have h1: "[?p, ?q] = sampled_points (raster two_pixel_env ''BE MY'') (getResponsiveScale 1)"
    by (simp add: two_pixel_env_def sampled_points_two_pixels)
  have h2: "1 \<le> length [?p, ?q]" by simp
  have h3: "length [?p, ?q] < (5::nat)" by simp
  have len: "length [?p, ?q] = 2" by simp
  from text_points_cycle [OF h1 h2 h3]
  obtain out where o: "createTextPoints two_pixel_env 1 ''BE MY'' 5 = Inr out" "length out = 5"
    "\<forall>i<5. out ! i = [?p, ?q] ! (i mod 2)"
    unfolding len by blast
  from o(3) have e: "out ! 0 = ?p" "out ! 1 = ?q" "out ! 2 = ?p" "out ! 3 = ?q" "out ! 4 = ?p"
    by simp_all
  from getResponsiveScale_pos [of 1] have "?q \<noteq> ?p"
    by (simp add: Vector3_def)
  with o(1,2) e show ?thesis by simp
qed

section \<open>Properties of shape regeneration\<close>

lemma Array_from_random_lengthD:
  "Array_from_random n f src = (xs, src') \<Longrightarrow> length xs = n"
  using Array_from_random_length [of n f src] by simp

lemma initShapes_keeps:
  "currentGesture (state_after (initShapes e s)) = currentGesture s \<and>
   time (state_after (initShapes e s)) = time s \<and>
   handDisplacement (state_after (initShapes e s)) = handDisplacement s \<and>
   posArray (state_after (initShapes e s)) = posArray s \<and>
   particleSystem_position (state_after (initShapes e s)) = particleSystem_position s"
  by (simp add: initShapes_def state_after_def Let_def split: sum.splits prod.splits)

lemma initShapes_returns_sized:
  assumes "initShapes e s = Inr s'" and "length (posArray s) = PARTICLE_COUNT (isMobile e) * 3"
  shows "point_sets_sized e s'"
  using assms
  by (auto simp add: initShapes_def point_sets_sized_def Let_def
        split: sum.splits prod.splits
        dest: createTextPoints_length Array_from_random_lengthD)

lemma initShapes_sized:
  assumes "point_sets_sized e s"
  shows "point_sets_sized e (state_after (initShapes e (s\<lparr>camera_aspect := aspect\<rparr>)))"
  using assms
  by (auto simp add: initShapes_def point_sets_sized_def state_after_def Let_def
        split: sum.splits prod.splits
        dest: createTextPoints_length Array_from_random_lengthD)

lemma onResults_keeps:
  "willYouPoints (state_after (onResults r s)) = willYouPoints s \<and>
   beMyPoints (state_after (onResults r s)) = beMyPoints s \<and>
   valentinesPoints (state_after (onResults r s)) = valentinesPoints s \<and>
   saturnPoints (state_after (onResults r s)) = saturnPoints s \<and>
   randomPoints (state_after (onResults r s)) = randomPoints s \<and>
   posArray (state_after (onResults r s)) = posArray s \<and>
   particleSystem_position (state_after (onResults r s)) = particleSystem_position s"
  by (simp add: onResults_def state_after_def Let_def split: option.splits list.splits)

lemma onResults_z:
  "vz (handDisplacement s) = 0 \<Longrightarrow> vz (handDisplacement (state_after (onResults r s))) = 0"
  by (simp add: onResults_def state_after_def Let_def lerp_def Vector3_def
        split: option.splits list.splits)

lemma onResults_hand_z:
  "hand_detected r \<Longrightarrow>
   vz (handDisplacement (state_after (onResults r s))) = vz (handDisplacement s)"
  by (simp add: onResults_def state_after_def Let_def hand_detected_def
        split: option.splits list.splits)

section \<open>Properties of the animation frame\<close>

lemma move_particle_length: "length (move_particle t drift i positions) = length positions"
  by (simp add: move_particle_def Let_def)

lemma animate_loop_length:
  "length (case animate_loop N targetSet randomPts tm i positions of
             Inl (err, ps) \<Rightarrow> ps | Inr ps \<Rightarrow> ps) = length positions"
proof (induction N targetSet randomPts tm i positions rule: animate_loop.induct)
  case (1 N targetSet randomPts tm i positions)
  show ?case
  proof (cases "i < N")
    case False
    then show ?thesis by (subst animate_loop.simps) simp
  next
    case True
    show ?thesis
    proof (cases "case targetSet of
                    Some ts \<Rightarrow> js_index ts i
                  | None \<Rightarrow> (case randomPts of None \<Rightarrow> None | Some rp \<Rightarrow> js_index rp i)")
      case None
      with True show ?thesis by (subst animate_loop.simps) simp
    next
      case (Some t)
      from "1.IH" [OF True Some] True Some show ?thesis
        by (subst animate_loop.simps) (simp add: move_particle_length)
    qed
  qed
qed

lemma animate_keeps:
  "currentGesture (state_after (animate e s)) = currentGesture s \<and>
   handDisplacement (state_after (animate e s)) = handDisplacement s \<and>
   willYouPoints (state_after (animate e s)) = willYouPoints s \<and>
   beMyPoints (state_after (animate e s)) = beMyPoints s \<and>
   valentinesPoints (state_after (animate e s)) = valentinesPoints s \<and>
   saturnPoints (state_after (animate e s)) = saturnPoints s \<and>
   randomPoints (state_after (animate e s)) = randomPoints s \<and>
   particleSystem_position (state_after (animate e s))
     = lerp (particleSystem_position s) (handDisplacement s) ELASTICITY"
  by (simp add: animate_def state_after_def Let_def split: sum.splits prod.splits)

lemma animate_posArray_length:
  "length (posArray (state_after (animate e s))) = length (posArray s)"
  using animate_loop_length [of "PARTICLE_COUNT (isMobile e)"
      "targetSet_of (s\<lparr>time := time s + 0.01\<rparr>)" "randomPoints s" "time s + 0.01" 0 "posArray s"]
  by (simp add: animate_def state_after_def Let_def split: sum.splits prod.splits)


section \<open>Invariants of the running program\<close>

lemma globals0_buffer: "length (posArray (globals0 e aspect src)) = PARTICLE_COUNT (isMobile e) * 3"
  by (simp add: globals0_def)

lemma startup_sized: "startup e aspect src = Inr s \<Longrightarrow> point_sets_sized e s"
  by (auto simp add: startup_def split: sum.splits
        intro: initShapes_returns_sized [OF _ globals0_buffer])

lemma startup_z:
  assumes "startup e aspect src = Inr s"
  shows "vz (handDisplacement s) = 0 \<and> vz (particleSystem_position s) = 0"
proof -
  from assms have "initShapes e (globals0 e aspect src) = Inr s"
    by (auto simp add: startup_def split: sum.splits)
  then have "s = state_after (initShapes e (globals0 e aspect src))"
    by (simp add: state_after_def)
  then show ?thesis
    using initShapes_keeps [of e "globals0 e aspect src"]
    by (simp add: globals0_def Vector3_def)
qed

lemma handle_sized:
  assumes "point_sets_sized e s"
  shows "point_sets_sized e (state_after (handle e ev s))"
proof (cases ev)
  case (LandmarkFrame r)
  with assms onResults_keeps [of r s] show ?thesis
    by (simp add: handle_def point_sets_sized_def)
next
  case AnimationFrame
  with assms animate_keeps [of e s] animate_posArray_length [of e s] show ?thesis
    by (simp add: handle_def point_sets_sized_def)
next
  case (Resize aspect)
  with assms show ?thesis
    by (simp add: handle_def initShapes_sized)
qed

lemma handle_z:
  assumes "vz (handDisplacement s) = 0 \<and> vz (particleSystem_position s) = 0"
  shows "vz (handDisplacement (state_after (handle e ev s))) = 0 \<and>
         vz (particleSystem_position (state_after (handle e ev s))) = 0"
proof (cases ev)
  case (LandmarkFrame r)
  with assms onResults_keeps [of r s] onResults_z [of s r] show ?thesis
    by (simp add: handle_def)
next
  case AnimationFrame
  with assms animate_keeps [of e s] show ?thesis
    by (simp add: handle_def lerp_def)
next
  case (Resize aspect)
  with assms initShapes_keeps [of e "s\<lparr>camera_aspect := aspect\<rparr>"] show ?thesis
    by (simp add: handle_def)
qed

text \<open>The start of the desktop script with the one-pixel rasteriser, evaluated.\<close>

lemma Math_random_zero: "Math_random zero_source = (0, zero_source)"
  by (simp add: Math_random_def zero_source_def)

lemma randomPoint_zero: "randomPoint zero_source = (Vector3 (- 30) (- 30) (- 30), zero_source)"
  by (simp add: randomPoint_def Math_random_zero)

lemma saturnPoint_zero:
  "saturnPoint N mobile i zero_source = (fst (saturnPoint N mobile i zero_source), zero_source)"
  by (simp add: saturnPoint_def Math_random_zero Let_def)

lemma createTextPoints_one_pixel:
  "raster e text = one_pixel \<Longrightarrow>
   createTextPoints e aspect text N
     = Inr (replicate N (Vector3 (- 256 * getResponsiveScale aspect) (64 * getResponsiveScale aspect) 0))"
  by (simp add: createTextPoints_def sampled_points_one_pixel cycle_fill_nonempty map_replicate_const)

lemma startup_desktop: "startup desktop_env 1 zero_source = Inr started_state"
proof -
  let ?N = "PARTICLE_COUNT False"
  have r: "Array_from_random ?N (\<lambda>i. randomPoint) zero_source
             = (replicate ?N (Vector3 (- 30) (- 30) (- 30)), zero_source)"
    using Array_from_random_fixed [of "\<lambda>i. randomPoint" zero_source "\<lambda>i. Vector3 (- 30) (- 30) (- 30)" ?N]
    by (simp add: randomPoint_zero map_replicate_const)
  have p: "Array_from_random ?N (saturnPoint ?N False) zero_source
             = (map (\<lambda>i. fst (saturnPoint ?N False i zero_source)) [0..<?N], zero_source)"
    by (rule Array_from_random_fixed) (rule saturnPoint_zero)
  have t: "\<And>text aspect. createTextPoints desktop_env aspect text ?N
             = Inr (replicate ?N (Vector3 (- 256 * getResponsiveScale aspect) (64 * getResponsiveScale aspect) 0))"
    by (rule createTextPoints_one_pixel) (simp add: desktop_env_def)
  have m: "isMobile desktop_env = False"
    by (simp add: desktop_env_def)
  show ?thesis
    by (simp add: startup_def initShapes_def m t r p started_state_def globals0_def Let_def)
qed

lemma reachable_sample_run: "reachable desktop_env sample_run"
  unfolding sample_run_def
  by (intro reachable_step reachable_start [OF startup_desktop])

text \<open>
  Claim C9. In every state the running program reaches, after the start and after any
  sequence of landmark frames, animation frames and resizes (each of which regenerates
  the shapes), the three text shapes, the planet and the dispersed cloud are all
  assigned and have exactly \<open>PARTICLE_COUNT\<close> points, and the position buffer holds
  three numbers for each of \<open>PARTICLE_COUNT\<close> particles.
\<close>

theorem point_sets_have_particle_count:
  assumes "reachable e s"
  shows "\<exists>w b v p r.
        willYouPoints s = Some w \<and> length w = PARTICLE_COUNT (isMobile e) \<and>
        beMyPoints s = Some b \<and> length b = PARTICLE_COUNT (isMobile e) \<and>
        valentinesPoints s = Some v \<and> length v = PARTICLE_COUNT (isMobile e) \<and>
        saturnPoints s = Some p \<and> length p = PARTICLE_COUNT (isMobile e) \<and>
        randomPoints s = Some r \<and> length r = PARTICLE_COUNT (isMobile e) \<and>
        length (posArray s) = PARTICLE_COUNT (isMobile e) * 3"
proof -
  from assms have "point_sets_sized e s"
  proof (induction rule: reachable.induct)
    case (reachable_start aspect src s)
    then show ?case by (rule startup_sized)
  next
    case (reachable_step s ev)
    then show ?case by (simp add: handle_sized)
  qed
  then show ?thesis by (simp add: point_sets_sized_def)
qed

theorem point_sets_have_particle_count_witness:
  "\<exists>w b v p r.
        willYouPoints sample_run = Some w \<and> length w = 15000 \<and>
        beMyPoints sample_run = Some b \<and> length b = 15000 \<and>
        valentinesPoints sample_run = Some v \<and> length v = 15000 \<and>
        saturnPoints sample_run = Some p \<and> length p = 15000 \<and>
        randomPoints sample_run = Some r \<and> length r = 15000 \<and>
        length (posArray sample_run) = 15000 * 3"
  using point_sets_have_particle_count [OF reachable_sample_run]
  by (simp add: desktop_env_def PARTICLE_COUNT_def)

text \<open>
  Claim C10. In every reachable state the \<open>z\<close> component of the hand displacement is
  zero, and so is the \<open>z\<close> component of the cloud's position, which eases towards the
  hand displacement; no handler changes either. A frame with a hand leaves the \<open>z\<close>
  component of the hand displacement as it finds it, in any state.
\<close>

theorem displacement_z_stays_zero:
  assumes "reachable e s"
  shows "vz (handDisplacement s) = 0 \<and> vz (particleSystem_position s) = 0 \<and>
         (\<forall>ev. vz (handDisplacement (state_after (handle e ev s))) = 0 \<and>
               vz (particleSystem_position (state_after (handle e ev s))) = 0) \<and>
         (hand_detected r \<longrightarrow>
            vz (handDisplacement (state_after (onResults r s0))) = vz (handDisplacement s0))"
proof -
  from assms have z: "vz (handDisplacement s) = 0 \<and> vz (particleSystem_position s) = 0"
  proof (induction rule: reachable.induct)
    case (reachable_start aspect src s)
    then show ?case by (rule startup_z)
  next
    case (reachable_step s ev)
    from reachable_step.IH show ?case by (rule handle_z)
  qed
  with handle_z [OF z] onResults_hand_z [of r s0] show ?thesis by simp
qed

theorem displacement_z_stays_zero_witness:
  "vz (handDisplacement sample_run) = 0 \<and> vz (particleSystem_position sample_run) = 0 \<and>
   vz (handDisplacement (state_after (handle desktop_env (LandmarkFrame no_hand) sample_run))) = 0 \<and>
   vz (particleSystem_position (state_after (handle desktop_env AnimationFrame sample_run))) = 0 \<and>
   vz (handDisplacement (state_after (onResults (hand_frame 0.2 0.2 0.8 0.8) displaced_state)))
     = vz (handDisplacement displaced_state)"
proof -
  have h: "hand_detected (hand_frame 0.2 0.2 0.8 0.8)"
    by (simp add: hand_detected_def hand_frame_def)
  from displacement_z_stays_zero [OF reachable_sample_run, of "hand_frame 0.2 0.2 0.8 0.8" displaced_state] h
  show ?thesis by simp
qed

section \<open>Elements of a randomly generated array\<close>

lemma Array_from_random_loop_elements:
  assumes step: "\<And>j src. P src \<Longrightarrow> P (snd (f j src)) \<and> Q j (fst (f j src))"
    and "P src"
  shows "P (snd (Array_from_random_loop f i k acc src)) \<and>
         take (length acc) (fst (Array_from_random_loop f i k acc src)) = acc \<and>
         (\<forall>j<k. Q (i + j) (fst (Array_from_random_loop f i k acc src) ! (length acc + j)))"
  using \<open>P src\<close>
proof (induction k arbitrary: i acc src)
  case 0
  then show ?case by simp
next
  case (Suc k)
  obtain v src' where f: "f i src = (v, src')" by (cases "f i src")
  with step [OF Suc.prems, of i] have p: "P src'" and q: "Q i v" by simp_all
  let ?xs = "fst (Array_from_random_loop f (Suc i) k (acc @ [v]) src')"
  from Suc.IH [OF p, of "Suc i" "acc @ [v]"]
  have ih1: "P (snd (Array_from_random_loop f (Suc i) k (acc @ [v]) src'))"
    and ih2: "take (length (acc @ [v])) ?xs = acc @ [v]"
    and ih3: "\<forall>j<k. Q (Suc i + j) (?xs ! (length (acc @ [v]) + j))"
    by simp_all
  have len: "length ?xs = length (acc @ [v]) + k"
    by (rule Array_from_random_loop_length)
  from ih2 have "take (length acc) (take (length (acc @ [v])) ?xs) = take (length acc) (acc @ [v])"
    by simp
  then have t: "take (length acc) ?xs = acc"
    by (simp add: min_def)
  from ih2 have "take (length (acc @ [v])) ?xs ! length acc = (acc @ [v]) ! length acc"
    by simp
  then have here: "?xs ! length acc = v"
    by simp
  have "\<forall>j<Suc k. Q (i + j) (?xs ! (length acc + j))"
  proof (intro allI impI)
    fix j assume "j < Suc k"
    show "Q (i + j) (?xs ! (length acc + j))"
    proof (cases j)
      case 0
      with here q show ?thesis by simp
    next
      case (Suc j')
      with \<open>j < Suc k\<close> ih3 show ?thesis by simp
    qed
  qed
  with ih1 t f show ?case by simp
qed

lemma Array_from_random_elements:
  assumes "\<And>j src. P src \<Longrightarrow> P (snd (f j src)) \<and> Q j (fst (f j src))" and "P src" and "j < n"
  shows "Q j (fst (Array_from_random n f src) ! j)"
  using Array_from_random_loop_elements [of P f Q src 0 n "[]", OF assms(1,2)] assms(3)
  by (simp add: Array_from_random_def)


section \<open>Properties of the planet\<close>

lemma Math_random_unit:
  "unit_interval src \<Longrightarrow>
   0 \<le> fst (Math_random src) \<and> fst (Math_random src) < 1 \<and> unit_interval (snd (Math_random src))"
  by (simp add: unit_interval_def Math_random_def)

lemma scaleFactor_pos: "0 < scaleFactor mobile"
  by (simp add: scaleFactor_def)

lemma PARTICLE_COUNT_pos: "0 < PARTICLE_COUNT mobile"
  by (simp add: PARTICLE_COUNT_def)

lemma vlength_spherical: "vlength (setFromSphericalCoords r phi theta) = \<bar>r\<bar>"
proof -
  have "(sin phi * r * sin theta)\<^sup>2 + (cos phi * r)\<^sup>2 + (sin phi * r * cos theta)\<^sup>2
          = r\<^sup>2 * ((sin phi)\<^sup>2 * ((sin theta)\<^sup>2 + (cos theta)\<^sup>2) + (cos phi)\<^sup>2)"
    by algebra
  also have "\<dots> = r\<^sup>2"
    by (simp only: sin_cos_squared_add mult_1_right)
  finally show ?thesis
    by (simp add: vlength_def setFromSphericalCoords_def Let_def)
qed

lemma ring_radius:
  assumes "0 \<le> radius"
  shows "sqrt ((cos angle * radius)\<^sup>2 + (sin angle * radius)\<^sup>2) = radius"
proof -
  have "(cos angle * radius)\<^sup>2 + (sin angle * radius)\<^sup>2 = radius\<^sup>2 * ((sin angle)\<^sup>2 + (cos angle)\<^sup>2)"
    by algebra
  also have "\<dots> = radius\<^sup>2"
    by (simp only: sin_cos_squared_add mult_1_right)
  finally show ?thesis using assms by simp
qed

lemma saturnPoint_core:
  "real i < real N * 0.4 \<Longrightarrow>
   fst (saturnPoint N mobile i src)
     = setFromSphericalCoords (15 * scaleFactor mobile) (saturn_phi N i) (saturn_theta N i)"
  by (simp add: saturnPoint_def Let_def)

lemma saturnPoint_ring:
  assumes "unit_interval src" and "\<not> real i < real N * 0.4"
  shows "\<exists>a r h. 0 \<le> a \<and> a < 1 \<and> 0 \<le> r \<and> r < 1 \<and> 0 \<le> h \<and> h < 1 \<and>
           fst (saturnPoint N mobile i src)
             = Vector3 (cos (a * pi * 2) * ((20 + r * 6) * scaleFactor mobile))
                       ((h - 0.5) * 0.6)
                       (sin (a * pi * 2) * ((20 + r * 6) * scaleFactor mobile))"
proof -
  obtain a s1 where 1: "Math_random src = (a, s1)" by (cases "Math_random src")
  obtain r s2 where 2: "Math_random s1 = (r, s2)" by (cases "Math_random s1")
  obtain h s3 where 3: "Math_random s2 = (h, s3)" by (cases "Math_random s2")
  from Math_random_unit [OF assms(1)] 1 have a: "0 \<le> a" "a < 1" and u1: "unit_interval s1"
    by simp_all
  from Math_random_unit [OF u1] 2 have r: "0 \<le> r" "r < 1" and u2: "unit_interval s2"
    by simp_all
  from Math_random_unit [OF u2] 3 have h: "0 \<le> h" "h < 1"
    by simp_all
  have "fst (saturnPoint N mobile i src)
          = Vector3 (cos (a * pi * 2) * ((20 + r * 6) * scaleFactor mobile))
                    ((h - 0.5) * 0.6)
                    (sin (a * pi * 2) * ((20 + r * 6) * scaleFactor mobile))"
    using assms(2) by (simp add: saturnPoint_def Let_def 1 2 3)
  with a r h show ?thesis by blast
qed

lemma saturnPoint_unit:
  "unit_interval src \<Longrightarrow> unit_interval (snd (saturnPoint N mobile i src))"
  by (simp add: saturnPoint_def Let_def unit_interval_def Math_random_def split: prod.splits)

lemma saturn_core_nth:
  assumes "j < N" and "real j < real N * 0.4"
  shows "fst (Array_from_random N (saturnPoint N mobile) src) ! j
           = setFromSphericalCoords (15 * scaleFactor mobile) (saturn_phi N j) (saturn_theta N j)"
proof -
  have "real j < real N * 0.4 \<longrightarrow>
        fst (Array_from_random N (saturnPoint N mobile) src) ! j
          = setFromSphericalCoords (15 * scaleFactor mobile) (saturn_phi N j) (saturn_theta N j)"
    by (rule Array_from_random_elements
          [of "\<lambda>src. True" "saturnPoint N mobile"
              "\<lambda>j v. real j < real N * 0.4 \<longrightarrow>
                 v = setFromSphericalCoords (15 * scaleFactor mobile) (saturn_phi N j) (saturn_theta N j)"])
       (simp_all add: saturnPoint_core assms(1))
  with assms(2) show ?thesis by simp
qed

lemma saturn_ring_nth:
  assumes "unit_interval src" and "j < N" and "\<not> real j < real N * 0.4"
  shows "\<exists>a r h. 0 \<le> a \<and> a < 1 \<and> 0 \<le> r \<and> r < 1 \<and> 0 \<le> h \<and> h < 1 \<and>
           fst (Array_from_random N (saturnPoint N mobile) src) ! j
             = Vector3 (cos (a * pi * 2) * ((20 + r * 6) * scaleFactor mobile))
                       ((h - 0.5) * 0.6)
                       (sin (a * pi * 2) * ((20 + r * 6) * scaleFactor mobile))"
proof -
  let ?Q = "\<lambda>j v. \<not> real j < real N * 0.4 \<longrightarrow>
                 (\<exists>a r h. 0 \<le> a \<and> a < 1 \<and> 0 \<le> r \<and> r < 1 \<and> 0 \<le> h \<and> h < 1 \<and>
                    v = Vector3 (cos (a * pi * 2) * ((20 + r * 6) * scaleFactor mobile))
                                ((h - 0.5) * 0.6)
                                (sin (a * pi * 2) * ((20 + r * 6) * scaleFactor mobile)))"
  have step: "\<And>j src. unit_interval src \<Longrightarrow>
      unit_interval (snd (saturnPoint N mobile j src)) \<and> ?Q j (fst (saturnPoint N mobile j src))"
    using saturnPoint_unit saturnPoint_ring by blast
  have "?Q j (fst (Array_from_random N (saturnPoint N mobile) src) ! j)"
    by (rule Array_from_random_elements [of unit_interval "saturnPoint N mobile" ?Q, OF step assms(1,2)])
  with assms(3) show ?thesis by blast
qed

lemma saturn_phi_0: "saturn_phi N 0 = pi"
  by (simp add: saturn_phi_def)

lemma saturn_pole:
  assumes "0 < N"
  shows "fst (Array_from_random N (saturnPoint N mobile) src) ! 0
           = Vector3 0 (- 15 * scaleFactor mobile) 0"
proof -
  from assms have "real 0 < real N * 0.4" by simp
  from saturn_core_nth [OF assms this, of mobile src] show ?thesis
    by (simp add: saturn_phi_0 setFromSphericalCoords_def Vector3_def Let_def)
qed


lemma core_count:
  assumes "5 dvd N"
  shows "card {j. j < N \<and> real j < real N * 0.4} = 2 * N div 5 \<and>
         card {j. j < N \<and> \<not> real j < real N * 0.4} = 3 * N div 5"
proof -
  from assms obtain m where N: "N = 5 * m" by (auto simp add: dvd_def)
  have iff: "\<And>j. real j < real N * 0.4 \<longleftrightarrow> j < 2 * m"
  proof -
    fix j
    have "real N * 0.4 = real (2 * m)" by (simp add: N)
    then show "real j < real N * 0.4 \<longleftrightarrow> j < 2 * m" by (simp only: of_nat_less_iff)
  qed
  have "{j. j < N \<and> real j < real N * 0.4} = {..<2 * m}"
    by (auto simp add: iff N)
  moreover have "{j. j < N \<and> \<not> real j < real N * 0.4} = {2 * m..<5 * m}"
    by (auto simp add: iff N)
  ultimately show ?thesis by (simp add: N)
qed

lemma saturn_zero_source:
  "Array_from_random N (saturnPoint N mobile) zero_source
     = (map (\<lambda>i. fst (saturnPoint N mobile i zero_source)) [0..<N], zero_source)"
  by (rule Array_from_random_fixed) (rule saturnPoint_zero)

text \<open>
  On a mobile device (scale factor \<open>0.6\<close>) with a random source that returns \<open>0\<close>,
  planet point 5000 is a ring point at \<open>(12, -0.3, 0)\<close>: its height \<open>-0.3\<close> lies below
  \<open>-0.3 * 0.6\<close>, because the jitter \<^verbatim>\<open>(Math.random() - 0.5) * 0.6\<close> is not multiplied
  by the scale factor.
\<close>

theorem ring_jitter_counterexample:
  "\<not> real 5000 < real (PARTICLE_COUNT True) * 0.4 \<and>
   fst (Array_from_random (PARTICLE_COUNT True) (saturnPoint (PARTICLE_COUNT True) True) zero_source) ! 5000
     = Vector3 12 (- 0.3) 0 \<and>
   \<not> - 0.3 * scaleFactor True
       \<le> vy (fst (Array_from_random (PARTICLE_COUNT True) (saturnPoint (PARTICLE_COUNT True) True)
                    zero_source) ! 5000)"
proof -
  have N: "PARTICLE_COUNT True = 8000" by (simp add: PARTICLE_COUNT_def)
  have idx: "(5000::nat) < PARTICLE_COUNT True" by (simp add: N)
  have "fst (Array_from_random (PARTICLE_COUNT True) (saturnPoint (PARTICLE_COUNT True) True) zero_source) ! 5000
          = fst (saturnPoint (PARTICLE_COUNT True) True 5000 zero_source)"
    using idx by (simp add: saturn_zero_source)
  also have "\<dots> = Vector3 12 (- 0.3) 0"
    by (simp add: saturnPoint_def N Math_random_zero scaleFactor_def Let_def)
  finally have v: "fst (Array_from_random (PARTICLE_COUNT True) (saturnPoint (PARTICLE_COUNT True) True)
                     zero_source) ! 5000 = Vector3 12 (- 0.3) 0" .
  show ?thesis
    unfolding v by (simp add: N scaleFactor_def Vector3_def)
qed

text \<open>
  Claim C6, as the code has it. For every particle count \<open>N\<close>, device tier and random
  source in \<open>[0, 1)\<close>, the planet has \<open>N\<close> points. A point \<open>i\<close> with \<open>i < 0.4 N\<close> is the
  core point on the sphere of radius \<open>15 * scaleFactor\<close> at polar angle
  \<open>arccos (-1 + 2 i / (0.4 N))\<close> and azimuth \<open>sqrt (0.4 N pi)\<close> times that angle. Every
  other point is a ring point at some azimuth, with horizontal radius in
  \<open>[20, 26) * scaleFactor\<close> and height in \<open>[-0.3, 0.3)\<close>, not scaled. When 5 divides
  \<open>N\<close> the core has \<open>0.4 N\<close> points and the ring \<open>0.6 N\<close>.
\<close>

theorem planet_point_set:
  fixes N :: nat and mobile :: bool and src :: "nat \<Rightarrow> real" and i :: nat
  defines "planet \<equiv> fst (Array_from_random N (saturnPoint N mobile) src)"
  assumes "unit_interval src" and "i < N"
  shows "length planet = N \<and>
    (real i < real N * 0.4 \<longrightarrow>
       planet ! i = setFromSphericalCoords (15 * scaleFactor mobile)
                      (arccos (- 1 + 2 * real i / (real N * 0.4)))
                      (sqrt (real N * 0.4 * pi) * arccos (- 1 + 2 * real i / (real N * 0.4))) \<and>
       vlength (planet ! i) = 15 * scaleFactor mobile) \<and>
    (\<not> real i < real N * 0.4 \<longrightarrow>
       (\<exists>angle radius. 0 \<le> angle \<and> angle < 2 * pi \<and>
          20 * scaleFactor mobile \<le> radius \<and> radius < 26 * scaleFactor mobile \<and>
          vx (planet ! i) = cos angle * radius \<and> vz (planet ! i) = sin angle * radius \<and>
          sqrt ((vx (planet ! i))\<^sup>2 + (vz (planet ! i))\<^sup>2) = radius) \<and>
       - 0.3 \<le> vy (planet ! i) \<and> vy (planet ! i) < 0.3) \<and>
    (5 dvd N \<longrightarrow>
       card {j. j < N \<and> real j < real N * 0.4} = 2 * N div 5 \<and>
       card {j. j < N \<and> \<not> real j < real N * 0.4} = 3 * N div 5)"
proof (intro conjI impI)
  show "length planet = N"
    by (simp add: planet_def Array_from_random_length)
next
  assume core: "real i < real N * 0.4"
  from saturn_core_nth [OF \<open>i < N\<close> core, of mobile src]
  have p: "planet ! i = setFromSphericalCoords (15 * scaleFactor mobile) (saturn_phi N i) (saturn_theta N i)"
    by (simp add: planet_def)
  then show "planet ! i = setFromSphericalCoords (15 * scaleFactor mobile)
                      (arccos (- 1 + 2 * real i / (real N * 0.4)))
                      (sqrt (real N * 0.4 * pi) * arccos (- 1 + 2 * real i / (real N * 0.4)))"
    by (simp add: saturn_phi_def saturn_theta_def)
  from p scaleFactor_pos [of mobile] show "vlength (planet ! i) = 15 * scaleFactor mobile"
    by (simp add: vlength_spherical)
next
  assume ring: "\<not> real i < real N * 0.4"
  from saturn_ring_nth [OF \<open>unit_interval src\<close> \<open>i < N\<close> ring, of mobile]
  obtain a r h where a: "0 \<le> a" "a < 1" and r: "0 \<le> r" "r < 1" and h: "0 \<le> h" "h < 1"
    and p: "planet ! i = Vector3 (cos (a * pi * 2) * ((20 + r * 6) * scaleFactor mobile))
                       ((h - 0.5) * 0.6)
                       (sin (a * pi * 2) * ((20 + r * 6) * scaleFactor mobile))"
    unfolding planet_def by blast
  let ?angle = "a * pi * 2" and ?radius = "(20 + r * 6) * scaleFactor mobile"
  have sf: "0 < scaleFactor mobile" by (rule scaleFactor_pos)
  have "0 \<le> ?angle" using a(1) by simp
  moreover have "?angle < 2 * pi" using a(2) by simp
  moreover have lo: "20 * scaleFactor mobile \<le> ?radius"
    using r(1) sf by simp
  moreover have "?radius < 26 * scaleFactor mobile"
    using r(2) sf by simp
  moreover have "vx (planet ! i) = cos ?angle * ?radius" "vz (planet ! i) = sin ?angle * ?radius"
    by (simp_all add: p Vector3_def)
  moreover have "sqrt ((vx (planet ! i))\<^sup>2 + (vz (planet ! i))\<^sup>2) = ?radius"
  proof -
    from lo sf have "0 \<le> ?radius" by linarith
    then have "sqrt ((cos ?angle * ?radius)\<^sup>2 + (sin ?angle * ?radius)\<^sup>2) = ?radius"
      by (rule ring_radius)
    then show ?thesis by (simp add: p Vector3_def)
  qed
  ultimately show "\<exists>angle radius. 0 \<le> angle \<and> angle < 2 * pi \<and>
          20 * scaleFactor mobile \<le> radius \<and> radius < 26 * scaleFactor mobile \<and>
          vx (planet ! i) = cos angle * radius \<and> vz (planet ! i) = sin angle * radius \<and>
          sqrt ((vx (planet ! i))\<^sup>2 + (vz (planet ! i))\<^sup>2) = radius"
    by blast
  show "- 0.3 \<le> vy (planet ! i)" using h(1) by (simp add: p Vector3_def)
  show "vy (planet ! i) < 0.3" using h(2) by (simp add: p Vector3_def)
next
  assume "5 dvd N"
  then show "card {j. j < N \<and> real j < real N * 0.4} = 2 * N div 5"
    and "card {j. j < N \<and> \<not> real j < real N * 0.4} = 3 * N div 5"
    using core_count [of N] by simp_all
qed

theorem planet_point_set_witness:
  "length (fst (Array_from_random 8000 (saturnPoint 8000 True) zero_source)) = 8000 \<and>
   vlength (fst (Array_from_random 8000 (saturnPoint 8000 True) zero_source) ! 100) = 15 * scaleFactor True \<and>
   - 0.3 \<le> vy (fst (Array_from_random 8000 (saturnPoint 8000 True) zero_source) ! 5000) \<and>
   vy (fst (Array_from_random 8000 (saturnPoint 8000 True) zero_source) ! 5000) < 0.3 \<and>
   card {j. j < (8000::nat) \<and> real j < real (8000::nat) * 0.4} = 3200"
proof -
  have u: "unit_interval zero_source"
    by (simp add: unit_interval_def zero_source_def)
  have c: "(100::nat) < 8000" and r: "(5000::nat) < 8000" by simp_all
  note core = planet_point_set [OF u c, of True]
  note ring = planet_point_set [OF u r, of True]
  have "real (100::nat) < real (8000::nat) * 0.4" by simp
  with core have 1: "vlength (fst (Array_from_random 8000 (saturnPoint 8000 True) zero_source) ! 100)
      = 15 * scaleFactor True"
    by blast
  have "\<not> real (5000::nat) < real (8000::nat) * 0.4" by simp
  with ring have 2: "- 0.3 \<le> vy (fst (Array_from_random 8000 (saturnPoint 8000 True) zero_source) ! 5000)"
    "vy (fst (Array_from_random 8000 (saturnPoint 8000 True) zero_source) ! 5000) < 0.3"
    by blast+
  have "(5::nat) dvd 8000" by simp
  with core have 3: "card {j. j < (8000::nat) \<and> real j < real (8000::nat) * 0.4} = 2 * 8000 div 5"
    by blast
  from core have 0: "length (fst (Array_from_random 8000 (saturnPoint 8000 True) zero_source)) = 8000"
    by blast
  from 0 1 2 3 show ?thesis by simp
qed


lemma spherical_pole: "setFromSphericalCoords r pi theta = Vector3 0 (- r) 0"
  by (simp add: setFromSphericalCoords_def Vector3_def)

lemma saturn_poleD:
  "Array_from_random N (saturnPoint N mobile) src = (sp, src') \<Longrightarrow> 0 < N \<Longrightarrow>
   sp ! 0 = Vector3 0 (- 15 * scaleFactor mobile) 0"
  using saturn_pole [of N mobile src] by simp

lemma initShapes_pole:
  assumes "initShapes e s = Inr s'"
  shows "\<exists>p. saturnPoints s' = Some p \<and> p ! 0 = Vector3 0 (- 15 * scaleFactor (isMobile e)) 0"
  using assms PARTICLE_COUNT_pos [of "isMobile e"]
  by (auto simp add: initShapes_def Let_def split: sum.splits prod.splits dest: saturn_poleD)

lemma initShapes_pole_kept:
  assumes "\<exists>p. saturnPoints s = Some p \<and> p ! 0 = Vector3 0 (- 15 * scaleFactor (isMobile e)) 0"
  shows "\<exists>p. saturnPoints (state_after (initShapes e (s\<lparr>camera_aspect := aspect\<rparr>))) = Some p \<and>
             p ! 0 = Vector3 0 (- 15 * scaleFactor (isMobile e)) 0"
proof (cases "initShapes e (s\<lparr>camera_aspect := aspect\<rparr>)")
  case (Inr s')
  with initShapes_pole [OF Inr] show ?thesis
    by (simp add: state_after_def)
next
  case (Inl a)
  then have "saturnPoints (state_after (initShapes e (s\<lparr>camera_aspect := aspect\<rparr>))) = saturnPoints s"
    by (auto simp add: initShapes_def state_after_def Let_def split: sum.splits prod.splits)
  with assms show ?thesis by simp
qed

lemma handle_pole:
  assumes "\<exists>p. saturnPoints s = Some p \<and> p ! 0 = Vector3 0 (- 15 * scaleFactor (isMobile e)) 0"
  shows "\<exists>p. saturnPoints (state_after (handle e ev s)) = Some p \<and>
             p ! 0 = Vector3 0 (- 15 * scaleFactor (isMobile e)) 0"
proof (cases ev)
  case (LandmarkFrame r)
  with assms onResults_keeps [of r s] show ?thesis by (simp add: handle_def)
next
  case AnimationFrame
  with assms animate_keeps [of e s] show ?thesis by (simp add: handle_def)
next
  case (Resize aspect)
  with initShapes_pole_kept [OF assms] show ?thesis by (simp add: handle_def)
qed

lemma reachable_pole:
  assumes "reachable e s"
  shows "\<exists>p. saturnPoints s = Some p \<and> p ! 0 = Vector3 0 (- 15 * scaleFactor (isMobile e)) 0"
  using assms
proof (induction rule: reachable.induct)
  case (reachable_start aspect src s)
  then have "initShapes e (globals0 e aspect src) = Inr s"
    by (auto simp add: startup_def split: sum.splits)
  then show ?case by (rule initShapes_pole)
next
  case (reachable_step s ev)
  from reachable_step.IH show ?case by (rule handle_pole)
qed

lemma getResponsiveScale_linear: "getResponsiveScale (c * aspect) = c * getResponsiveScale aspect"
  by (simp add: getResponsiveScale_def Let_def)

text \<open>
  The desktop script, started at aspect 1 and resized to aspect 2 (which doubles the
  responsive scale): core point 0 of the planet is \<open>(0, -15, 0)\<close> before and after,
  its polar angle is \<open>pi\<close>, and the point at angles \<open>(0, 0)\<close> would be \<open>(0, 15, 0)\<close>.
\<close>

theorem planet_pole_counterexample:
  "the (saturnPoints started_state) ! 0 = Vector3 0 (- 15) 0 \<and>
   the (saturnPoints (state_after (handle desktop_env (Resize 2) started_state))) ! 0 = Vector3 0 (- 15) 0 \<and>
   getResponsiveScale 2 = 2 * getResponsiveScale 1 \<and>
   saturn_phi (PARTICLE_COUNT False) 0 = pi \<and>
   setFromSphericalCoords (15 * scaleFactor False) 0 0 = Vector3 0 15 0 \<and>
   Vector3 0 (- 15) 0 \<noteq> Vector3 0 15 0"
proof -
  have r0: "reachable desktop_env started_state"
    by (rule reachable_start [OF startup_desktop])
  have sf: "scaleFactor (isMobile desktop_env) = 1"
    by (simp add: desktop_env_def scaleFactor_def)
  from reachable_pole [OF r0] have 1: "the (saturnPoints started_state) ! 0 = Vector3 0 (- 15) 0"
    by (auto simp add: sf)
  from reachable_pole [OF reachable_step [OF r0, of "Resize 2"]]
  have 2: "the (saturnPoints (state_after (handle desktop_env (Resize 2) started_state))) ! 0
             = Vector3 0 (- 15) 0"
    by (auto simp add: sf)
  have 3: "getResponsiveScale 2 = 2 * getResponsiveScale 1"
    using getResponsiveScale_linear [of 2 1] by simp
  have 4: "setFromSphericalCoords (15 * scaleFactor False) 0 0 = Vector3 0 15 0"
    by (simp add: setFromSphericalCoords_def Vector3_def scaleFactor_def)
  have 5: "Vector3 0 (- 15) 0 \<noteq> Vector3 0 15 0"
    by (simp add: Vector3_def)
  from 1 2 3 4 5 saturn_phi_0 show ?thesis by blast
qed

text \<open>
  Claim C7, as the code has it. The planet's scale factor is the constant of the device
  tier, which no resize changes. In every reachable state core point 0 of the planet
  is at radius \<open>15 * scaleFactor\<close>, at polar angle \<open>pi\<close> and azimuth
  \<open>sqrt (0.4 N pi) * pi\<close>, that is at \<open>(0, -15 * scaleFactor, 0)\<close>, and every resize
  regenerates it at the same place.
\<close>

theorem planet_pole_fixed:
  assumes "reachable e s"
  shows "\<exists>p. saturnPoints s = Some p \<and>
          p ! 0 = setFromSphericalCoords (15 * scaleFactor (isMobile e)) pi
                    (sqrt (real (PARTICLE_COUNT (isMobile e)) * 0.4 * pi) * pi) \<and>
          p ! 0 = Vector3 0 (- 15 * scaleFactor (isMobile e)) 0 \<and>
          vlength (p ! 0) = 15 * scaleFactor (isMobile e) \<and>
          (\<forall>aspect. \<exists>p'. saturnPoints (state_after (handle e (Resize aspect) s)) = Some p' \<and>
                          p' ! 0 = p ! 0)"
proof -
  from reachable_pole [OF assms] obtain p
    where p: "saturnPoints s = Some p" "p ! 0 = Vector3 0 (- 15 * scaleFactor (isMobile e)) 0"
    by blast
  have sph: "p ! 0 = setFromSphericalCoords (15 * scaleFactor (isMobile e)) pi
                    (sqrt (real (PARTICLE_COUNT (isMobile e)) * 0.4 * pi) * pi)"
    by (simp add: p(2) spherical_pole)
  have len: "vlength (p ! 0) = 15 * scaleFactor (isMobile e)"
    unfolding sph using scaleFactor_pos [of "isMobile e"] by (simp add: vlength_spherical)
  have "\<forall>aspect. \<exists>p'. saturnPoints (state_after (handle e (Resize aspect) s)) = Some p' \<and>
                          p' ! 0 = p ! 0"
  proof
    fix aspect
    from reachable_pole [OF reachable_step [OF assms, of "Resize aspect"]] p(2)
    show "\<exists>p'. saturnPoints (state_after (handle e (Resize aspect) s)) = Some p' \<and> p' ! 0 = p ! 0"
      by simp
  qed
  with p sph len show ?thesis by blast
qed

theorem planet_pole_fixed_witness:
  "\<exists>p. saturnPoints sample_run = Some p \<and>
        p ! 0 = Vector3 0 (- 15) 0 \<and> vlength (p ! 0) = 15 \<and>
        (\<exists>p'. saturnPoints (state_after (handle desktop_env (Resize 3) sample_run)) = Some p' \<and>
              p' ! 0 = p ! 0)"
proof -
  have sf: "scaleFactor (isMobile desktop_env) = 1"
    by (simp add: desktop_env_def scaleFactor_def)
  from planet_pole_fixed [OF reachable_sample_run] show ?thesis
    unfolding sf by (auto simp add: Vector3_def)
qed

section \<open>Properties of the single-precision store\<close>








section \<open>Properties of the morph\<close>



























end
